theory Spec2Isabelle
  imports Main "HOL-Library.List_Lexorder" "HOL-Library.Char_ord"
begin

unbundle bit_operations_syntax

section \<open>Python values, exceptions and dictionaries\<close>

text \<open>
  The script \<open>extract_tankopedia.py\<close> works on Python strings, integers, lists and
  dictionaries. Strings are \<open>string\<close> (lists of 8-bit characters), Python's unbounded
  integers are \<open>int\<close>. A dictionary is an association list in insertion order whose keys
  are pairwise distinct: assigning to an existing key keeps the key's position, assigning
  to a new key appends it, as Python's \<open>dict\<close> does.
\<close>

datatype pyexc = KeyError | IndexError | TypeError | ValueError | AttributeError | AssertionError

text \<open>
  A run of the script ends early either by \<open>sys.exit(n)\<close> or by an exception nobody
  catches.
\<close>

datatype abort = SystemExit int | Uncaught pyexc

text \<open>
  The values the script stores in its records. \<open>xmltodict\<close> and \<open>json\<close> can also return a
  dict or a list where a scalar is expected; the script never looks inside such a value,
  so it is carried as \<open>PyDict r\<close> or \<open>PyList r\<close>, identified by its \<open>str()\<close> text \<open>r\<close>.
\<close>

datatype pyval = PyNone | PyBool bool | PyInt int | PyStr string | PyDict string | PyList string

type_synonym ('k, 'v) dict = "('k \<times> 'v) list"

definition is_dict :: "('k, 'v) dict \<Rightarrow> bool" where
  "is_dict d = distinct (map fst d)"

definition dict_keys :: "('k, 'v) dict \<Rightarrow> 'k list" where
  "dict_keys d = map fst d"

definition dict_find :: "('k, 'v) dict \<Rightarrow> 'k \<Rightarrow> 'v option" where
  "dict_find d k = map_of d k"

definition dict_get :: "('k, 'v) dict \<Rightarrow> 'k \<Rightarrow> pyexc + 'v" where
  \<comment> \<open>\<open>d[k]\<close>\<close>
  "dict_get d k = (case map_of d k of None \<Rightarrow> Inl KeyError | Some v \<Rightarrow> Inr v)"

fun dict_set :: "'k \<Rightarrow> 'v \<Rightarrow> ('k, 'v) dict \<Rightarrow> ('k, 'v) dict" where
  \<comment> \<open>\<open>d[k] = v\<close>\<close>
  "dict_set k v [] = [(k, v)]"
| "dict_set k v (p # d) = (if fst p = k then (k, v) # d else p # dict_set k v d)"

definition dict_pop :: "'k \<Rightarrow> ('k, 'v) dict \<Rightarrow> ('k, 'v) dict" where
  \<comment> \<open>\<open>d.pop(k, None)\<close>, the popped value dropped\<close>
  "dict_pop k d = filter (\<lambda>p. fst p \<noteq> k) d"

definition dict_update :: "('k, 'v) dict \<Rightarrow> ('k, 'v) dict \<Rightarrow> ('k, 'v) dict" where
  \<comment> \<open>\<open>d.update(new)\<close>: the items of \<open>new\<close> are assigned in their order\<close>
  "dict_update d new = fold (\<lambda>p. dict_set (fst p) (snd p)) new d"

section \<open>Strings\<close>

fun split_py :: "char \<Rightarrow> string \<Rightarrow> string list" where
  \<comment> \<open>\<open>s.split(c)\<close> for a one-character separator: never the empty list\<close>
  "split_py c [] = [[]]"
| "split_py c (x # xs) =
     (if x = c then [] # split_py c xs
      else (case split_py c xs of [] \<Rightarrow> [[x]] | w # ws \<Rightarrow> (x # w) # ws))"

definition index_py :: "'a list \<Rightarrow> nat \<Rightarrow> pyexc + 'a" where
  \<comment> \<open>\<open>xs[i]\<close> for a literal index \<open>i \<ge> 0\<close>\<close>
  "index_py xs i = (if i < length xs then Inr (xs ! i) else Inl IndexError)"

fun strip_prefix :: "string \<Rightarrow> string \<Rightarrow> string option" where
  \<comment> \<open>the rest of the text after a literal, if the text starts with it\<close>
  "strip_prefix [] s = Some s"
| "strip_prefix (c # cs) [] = None"
| "strip_prefix (c # cs) (x # xs) = (if c = x then strip_prefix cs xs else None)"

definition is_digit :: "char \<Rightarrow> bool" where
  "is_digit c = (48 \<le> (of_char c :: nat) \<and> (of_char c :: nat) \<le> 57)"

definition is_alpha :: "char \<Rightarrow> bool" where
  "is_alpha c = ((65 \<le> (of_char c :: nat) \<and> (of_char c :: nat) \<le> 90)
               \<or> (97 \<le> (of_char c :: nat) \<and> (of_char c :: nat) \<le> 122))"

definition is_space :: "char \<Rightarrow> bool" where
  \<comment> \<open>the ASCII characters for which \<open>str.isspace\<close> holds: tab to carriage return,
      the four separators \<open>0x1c\<close> to \<open>0x1f\<close>, and the space\<close>
  "is_space c = ((9 \<le> (of_char c :: nat) \<and> (of_char c :: nat) \<le> 13)
               \<or> (28 \<le> (of_char c :: nat) \<and> (of_char c :: nat) \<le> 32))"

definition digit_char :: "nat \<Rightarrow> char" where
  "digit_char d = char_of (48 + d)"

fun str_nat :: "nat \<Rightarrow> string" where
  "str_nat n = (if n < 10 then [digit_char n] else str_nat (n div 10) @ [digit_char (n mod 10)])"

declare str_nat.simps [simp del]

definition str_int :: "int \<Rightarrow> string" where
  \<comment> \<open>\<open>str(i)\<close> for an integer\<close>
  "str_int i = (if i < 0 then CHR ''-'' # str_nat (nat (- i)) else str_nat (nat i))"

fun str_py :: "pyval \<Rightarrow> string" where
  \<comment> \<open>\<open>str(v)\<close>\<close>
  "str_py PyNone = ''None''"
| "str_py (PyBool b) = (if b then ''True'' else ''False'')"
| "str_py (PyInt i) = str_int i"
| "str_py (PyStr s) = s"
| "str_py (PyDict r) = r"
| "str_py (PyList r) = r"

text \<open>
  \<open>int(s)\<close> in base ten: surrounding whitespace is dropped, one sign is allowed, and the
  digits may be separated by single underscores. Anything else raises \<open>ValueError\<close>.
  Characters beyond ASCII are neither digits nor whitespace in this model, and the limit
  on the number of digits that recent interpreters impose is left out.
\<close>

fun parse_digits :: "bool \<Rightarrow> nat \<Rightarrow> string \<Rightarrow> nat option" where
  \<comment> \<open>the flag tells whether the previous character was a digit\<close>
  "parse_digits prev acc [] = (if prev then Some acc else None)"
| "parse_digits prev acc (c # cs) =
     (if is_digit c then parse_digits True (acc * 10 + (of_char c - 48)) cs
      else if c = CHR ''_'' \<and> prev then parse_digits False acc cs
      else None)"

definition strip_py :: "string \<Rightarrow> string" where
  "strip_py s = rev (dropWhile is_space (rev (dropWhile is_space s)))"

definition int_py :: "string \<Rightarrow> pyexc + int" where
  "int_py s =
     (case strip_py s of
        [] \<Rightarrow> Inl ValueError
      | c # cs \<Rightarrow>
          (if c = CHR ''-'' then
             (case parse_digits False 0 cs of None \<Rightarrow> Inl ValueError | Some n \<Rightarrow> Inr (- int n))
           else if c = CHR ''+'' then
             (case parse_digits False 0 cs of None \<Rightarrow> Inl ValueError | Some n \<Rightarrow> Inr (int n))
           else
             (case parse_digits False 0 (c # cs) of None \<Rightarrow> Inl ValueError | Some n \<Rightarrow> Inr (int n))))"

fun int_of :: "pyval \<Rightarrow> pyexc + int" where
  \<comment> \<open>\<open>int(v)\<close>\<close>
  "int_of (PyInt i) = Inr i"
| "int_of (PyBool b) = Inr (if b then 1 else 0)"
| "int_of (PyStr s) = int_py s"
| "int_of PyNone = Inl TypeError"
| "int_of (PyDict r) = Inl TypeError"
| "int_of (PyList r) = Inl TypeError"

text \<open>
  \<open>sorted(xs, key=f)\<close>: the key is computed for every element first (an exception of \<open>f\<close>
  ends the call), then the elements are sorted by their keys, equal keys staying in their
  order.
\<close>

fun decorate :: "('a \<Rightarrow> pyexc + 'k) \<Rightarrow> 'a list \<Rightarrow> pyexc + ('k \<times> 'a) list" where
  "decorate f [] = Inr []"
| "decorate f (x # xs) =
     (case f x of
        Inl e \<Rightarrow> Inl e
      | Inr k \<Rightarrow> (case decorate f xs of Inl e \<Rightarrow> Inl e | Inr r \<Rightarrow> Inr ((k, x) # r)))"

definition sorted_by :: "('a \<Rightarrow> pyexc + 'k::linorder) \<Rightarrow> 'a list \<Rightarrow> pyexc + 'a list" where
  "sorted_by f xs =
     (case decorate f xs of Inl e \<Rightarrow> Inl e | Inr kxs \<Rightarrow> Inr (map snd (sort_key fst kxs)))"

section \<open>The tables of \<open>blitzutils.WG\<close>\<close>

text \<open>
  The class \<open>WG\<close> comes from the module \<open>blitzutils\<close>. The script reads three of its
  tables: the list of nations, the nation index and the list of vehicle types. They are
  a parameter of the model. The global variable \<open>wg\<close> is \<open>None\<close> until \<open>main\<close> sets it.
\<close>

record WG =
  NATION :: "string list"
  NATION_ID :: "(string, int) dict"
  TANK_TYPE :: "string list"

definition WG_sample :: WG where
  \<comment> \<open>a table of the expected shape, for evaluating the functions on concrete inputs\<close>
  "WG_sample = \<lparr> NATION = [''ussr'', ''germany'', ''usa'', ''china''],
      NATION_ID = [(''ussr'', 0), (''germany'', 1), (''usa'', 2), (''china'', 3)],
      TANK_TYPE = [''lightTank'', ''mediumTank'', ''heavyTank'', ''AT-SPG''] \<rparr>"

section \<open>Identifier encoder and vehicle classifier\<close>

definition get_tank_id :: "WG option \<Rightarrow> string \<Rightarrow> int \<Rightarrow> pyexc + int" where
  "get_tank_id wg nation tank_id =
     (case wg of
        None \<Rightarrow> Inl AssertionError
      | Some w \<Rightarrow>
          (case dict_get (NATION_ID w) nation of
             Inl e \<Rightarrow> Inl e
           | Inr idx \<Rightarrow> Inr (push_bit 8 tank_id + push_bit 4 idx + 1)))"

definition encode_id :: "int \<Rightarrow> int \<Rightarrow> int" where
  \<comment> \<open>the formula in the words of the specification, to compare with \<open>get_tank_id\<close>\<close>
  "encode_id nation_index raw_id = push_bit 8 raw_id OR push_bit 4 nation_index OR 1"

definition get_tank_type :: "WG option \<Rightarrow> pyval \<Rightarrow> pyexc + string option" where
  \<comment> \<open>the result \<open>None\<close> is Python's \<open>None\<close>: no known type matches the first tag\<close>
  "get_tank_type wg tagstr =
     (case wg of
        None \<Rightarrow> Inl AssertionError
      | Some w \<Rightarrow>
          (case tagstr of
             PyStr s \<Rightarrow>
               (let tags = split_py CHR '' '' s in
                if TANK_TYPE w = [] then Inr None
                else (case index_py tags 0 of
                        Inl e \<Rightarrow> Inl e
                      | Inr t0 \<Rightarrow> Inr (find (\<lambda>t_type. t0 = t_type) (TANK_TYPE w))))
           | _ \<Rightarrow> Inl AttributeError))"

section \<open>Files\<close>

text \<open>
  Reading files is outside the script's own logic. The model is given what the readers
  return: for each path of a vehicle list the result of \<open>xmltodict.parse\<close>, for the strings
  file its lines. Paths are joined as \<open>os.path.join\<close> does on POSIX systems.
\<close>

definition path_join2 :: "string \<Rightarrow> string \<Rightarrow> string" where
  "path_join2 a b =
     (if strip_prefix ''/'' b \<noteq> None then b
      else if a = [] \<or> last a = CHR ''/'' then a @ b
      else a @ ''/'' @ b)"

definition path_join :: "string \<Rightarrow> string list \<Rightarrow> string" where
  "path_join a ps = fold (\<lambda>b p. path_join2 p b) ps a"

definition BLITZAPP_STRINGS :: string where
  "BLITZAPP_STRINGS = ''Data/Strings/en.yaml''"

definition BLITZAPP_VEHICLES_DIR :: string where
  "BLITZAPP_VEHICLES_DIR = ''Data/XML/item_defs/vehicles/''"

definition BLITZAPP_VEHICLE_FILE :: string where
  "BLITZAPP_VEHICLE_FILE = ''list.xml''"

type_synonym tank = "(string, pyval) dict"

text \<open>
  A vehicle list, once parsed, is a dictionary with the entry \<open>root\<close>, which maps the name
  of each vehicle to the dictionary of its fields. \<open>None\<close> stands for a file on which
  parsing raises, which has no entry \<open>root\<close>, or whose \<open>root\<close> is no dictionary (for an
  empty element \<open>xmltodict\<close> returns \<open>None\<close>): all of these end in \<open>sys.exit(2)\<close>. An
  entry that is not a dictionary makes the first field access raise, like an entry without
  fields, and is modelled by the empty dictionary.
\<close>

type_synonym vehicle_list = "(string, (string, pyval) dict) dict option"

record blitz_files =
  isdir :: "string \<Rightarrow> bool"
  vehicle_file :: "string \<Rightarrow> vehicle_list option"  \<comment> \<open>\<open>None\<close>: \<open>path.isfile\<close> is false\<close>
  strings_file :: "string \<Rightarrow> string list option"  \<comment> \<open>\<open>None\<close>: opening or reading fails\<close>

text \<open>What the script reports: lines on standard output and calls of \<open>bu.error\<close>.\<close>

datatype report = Stdout string | Error_exc pyexc | Error_tank tank | Error_file string

section \<open>Per-nation extractor\<close>

definition is_PyDict :: "pyval \<Rightarrow> bool" where
  \<comment> \<open>\<open>issubclass(type(v), dict)\<close>\<close>
  "is_PyDict v = (case v of PyDict r \<Rightarrow> True | _ \<Rightarrow> False)"

definition make_tank :: "WG option \<Rightarrow> string \<Rightarrow> (string, pyval) dict \<Rightarrow> pyexc + tank" where
  \<comment> \<open>the body of the loop over the entries of one vehicle list\<close>
  "make_tank wg nation tank_xml =
     (case dict_get tank_xml ''price'' of Inl e \<Rightarrow> Inl e | Inr price \<Rightarrow>
      let tank = dict_set ''is_premium'' (PyBool (is_PyDict price)) [];
          tank = dict_set ''nation'' (PyStr nation) tank in
      case dict_get tank_xml ''id'' of Inl e \<Rightarrow> Inl e | Inr idv \<Rightarrow>
      case int_of idv of Inl e \<Rightarrow> Inl e | Inr n \<Rightarrow>
      case get_tank_id wg nation n of Inl e \<Rightarrow> Inl e | Inr tid \<Rightarrow>
      let tank = dict_set ''tank_id'' (PyInt tid) tank in
      case dict_get tank_xml ''level'' of Inl e \<Rightarrow> Inl e | Inr lv \<Rightarrow>
      case int_of lv of Inl e \<Rightarrow> Inl e | Inr tier \<Rightarrow>
      let tank = dict_set ''tier'' (PyInt tier) tank in
      case dict_get tank_xml ''tags'' of Inl e \<Rightarrow> Inl e | Inr tags \<Rightarrow>
      case get_tank_type wg tags of Inl e \<Rightarrow> Inl e | Inr ty \<Rightarrow>
      let tank = dict_set ''type'' (case ty of None \<Rightarrow> PyNone | Some t \<Rightarrow> PyStr t) tank in
      case dict_get tank_xml ''userString'' of Inl e \<Rightarrow> Inl e | Inr us \<Rightarrow>
      Inr (dict_set ''userStr'' us tank))"

fun make_tanks :: "WG option \<Rightarrow> string \<Rightarrow> (string, pyval) dict list \<Rightarrow> pyexc + tank list" where
  \<comment> \<open>the loop: the first entry that raises ends it\<close>
  "make_tanks wg nation [] = Inr []"
| "make_tanks wg nation (x # xs) =
     (case make_tank wg nation x of
        Inl e \<Rightarrow> Inl e
      | Inr t \<Rightarrow> (case make_tanks wg nation xs of Inl e \<Rightarrow> Inl e | Inr ts \<Rightarrow> Inr (t # ts)))"

text \<open>
  The result of \<open>extract_tanks\<close> is \<open>Inl (SystemExit 2)\<close> when an entry cannot be read,
  \<open>Inr None\<close> for Python's \<open>None\<close>, which the function returns when the file is absent,
  and \<open>Inr (Some tanks)\<close> for a list of records.
\<close>

definition extract_tanks ::
  "WG option \<Rightarrow> blitz_files \<Rightarrow> string \<Rightarrow> string \<Rightarrow> report list \<times> (abort + tank list option)" where
  "extract_tanks wg fs blitz_app_base nation =
     (let base = (if isdir fs (path_join blitz_app_base [''assets''])
                  then path_join blitz_app_base [''assets''] else blitz_app_base);
          list_xml_file = path_join base [BLITZAPP_VEHICLES_DIR, nation, BLITZAPP_VEHICLE_FILE]
      in case vehicle_file fs list_xml_file of
           None \<Rightarrow> ([Stdout (''ERROR: cannot open '' @ list_xml_file)], Inr None)
         | Some None \<Rightarrow> ([Error_file list_xml_file], Inl (SystemExit 2))
         | Some (Some root) \<Rightarrow>
             (case make_tanks wg nation (map snd root) of
                Inl e \<Rightarrow> ([Error_exc e], Inl (SystemExit 2))
              | Inr tanks \<Rightarrow> ([], Inr (Some tanks))))"

section \<open>Collecting the nations' records in \<open>main\<close>\<close>

text \<open>
  \<open>main\<close> starts one task per nation and waits for all of them. \<open>sys.exit\<close> in a task ends
  the run. Otherwise the results are appended to \<open>tanklist\<close> in the order of the nations
  with \<open>list.extend\<close>, which raises \<open>TypeError\<close> when its argument is \<open>None\<close>.
\<close>

definition extend_py :: "'a list \<Rightarrow> 'a list option \<Rightarrow> pyexc + 'a list" where
  "extend_py xs ys = (case ys of None \<Rightarrow> Inl TypeError | Some zs \<Rightarrow> Inr (xs @ zs))"

fun extend_all :: "'a list \<Rightarrow> 'a list option list \<Rightarrow> pyexc + 'a list" where
  "extend_all acc [] = Inr acc"
| "extend_all acc (r # rs) =
     (case extend_py acc r of Inl e \<Rightarrow> Inl e | Inr acc' \<Rightarrow> extend_all acc' rs)"

fun gather :: "(abort + 'a) list \<Rightarrow> abort + 'a list" where
  "gather [] = Inr []"
| "gather (r # rs) =
     (case r of
        Inl a \<Rightarrow> Inl a
      | Inr x \<Rightarrow> (case gather rs of Inl a \<Rightarrow> Inl a | Inr xs \<Rightarrow> Inr (x # xs)))"

definition main_tanklist ::
  "WG \<Rightarrow> blitz_files \<Rightarrow> string \<Rightarrow> report list \<times> (abort + tank list)" where
  "main_tanklist w fs blitz_app_base =
     (let tasks = map (extract_tanks (Some w) fs blitz_app_base) (NATION w);
          reports = concat (map fst tasks)
      in case gather (map snd tasks) of
           Inl a \<Rightarrow> (reports, Inl a)
         | Inr results \<Rightarrow>
             (case extend_all [] results of
                Inl e \<Rightarrow> (reports, Inl (Uncaught e))
              | Inr tanklist \<Rightarrow> (reports, Inr tanklist)))"

section \<open>String table reader\<close>

text \<open>
  The two line patterns of \<open>read_user_strs\<close> are

  \<^item> \<open>p_tank\<close>: \<^verbatim>\<open>^"(#\w+?_vehicles:.+?)": "(.+)"$\<close>
  \<^item> \<open>p_map\<close>: \<^verbatim>\<open>^"#maps:(.+?):.+?: "(.+?)"$\<close>

  and \<open>match\<close> tries them at the start of the line. The matcher of Python's \<open>re\<close> module
  backtracks: a lazy repetition tries its shortest extent first, a greedy one its longest,
  and the first combination for which the rest of the pattern matches is the result. The
  model lists the extents of each repetition in that order and takes the first success.
  \<open>.\<close> matches every character but the newline, \<open>\w\<close> letters, digits and the
  underscore (ASCII in this model), and \<open>$\<close> matches at the end of the text and before a
  newline that ends it.
\<close>

definition dquote :: char where
  "dquote = CHR 0x22"

definition newline :: char where
  "newline = CHR 0x0A"

definition is_word_char :: "char \<Rightarrow> bool" where
  "is_word_char c = (is_alpha c \<or> is_digit c \<or> c = CHR ''_'')"

definition is_dot_char :: "char \<Rightarrow> bool" where
  "is_dot_char c = (c \<noteq> newline)"

definition at_dollar :: "string \<Rightarrow> bool" where
  "at_dollar s = (s = [] \<or> s = [newline])"

fun plus_then :: "(char \<Rightarrow> bool) \<Rightarrow> string \<Rightarrow> string \<Rightarrow> string \<Rightarrow> (string \<times> string) list" where
  \<comment> \<open>the ways to match one or more characters of a class and then a literal, shortest
      first: each with the characters matched (after those in \<open>acc\<close>) and the text that
      follows the literal\<close>
  "plus_then P lit acc [] = []"
| "plus_then P lit acc (c # cs) =
     (if P c then
        (case strip_prefix lit cs of None \<Rightarrow> [] | Some r \<Rightarrow> [(acc @ [c], r)])
        @ plus_then P lit (acc @ [c]) cs
      else [])"

fun first_some :: "('a \<Rightarrow> 'b option) \<Rightarrow> 'a list \<Rightarrow> 'b option" where
  "first_some f [] = None"
| "first_some f (x # xs) = (case f x of None \<Rightarrow> first_some f xs | Some y \<Rightarrow> Some y)"

definition p_tank_match :: "string \<Rightarrow> (string \<times> string) option" where
  \<comment> \<open>\<open>p_tank.match(l)\<close>: the two groups of the match\<close>
  "p_tank_match l =
     (case strip_prefix [dquote, CHR ''#''] l of
        None \<Rightarrow> None
      | Some r \<Rightarrow>
          first_some (\<lambda>(w, r1).
            first_some (\<lambda>(v, r2).
              first_some (\<lambda>(g2, r3).
                if at_dollar r3 then Some (''#'' @ w @ ''_vehicles:'' @ v, g2) else None)
                (rev (plus_then is_dot_char [dquote] [] r2)))
              (plus_then is_dot_char ([dquote] @ '': '' @ [dquote]) [] r1))
            (plus_then is_word_char ''_vehicles:'' [] r))"

definition p_map_match :: "string \<Rightarrow> (string \<times> string) option" where
  \<comment> \<open>\<open>p_map.match(l)\<close>: the two groups of the match\<close>
  "p_map_match l =
     (case strip_prefix ([dquote] @ ''#maps:'') l of
        None \<Rightarrow> None
      | Some r \<Rightarrow>
          first_some (\<lambda>(g1, r1).
            first_some (\<lambda>(v, r2).
              first_some (\<lambda>(g2, r3).
                if at_dollar r3 then Some (g1, g2) else None)
                (plus_then is_dot_char [dquote] [] r2))
              (plus_then is_dot_char ('': '' @ [dquote]) [] r1))
            (plus_then is_dot_char '':'' [] r))"

definition read_line ::
  "string \<Rightarrow> (string, string) dict \<times> (string, string) dict
          \<Rightarrow> (string, string) dict \<times> (string, string) dict" where
  \<comment> \<open>the body of the loop over the lines, on \<open>(tank_strs, map_strs)\<close>\<close>
  "read_line l strs =
     (let tank_strs = (case p_tank_match l of
                         None \<Rightarrow> fst strs
                       | Some (g1, g2) \<Rightarrow> dict_set g1 g2 (fst strs));
          map_strs = (case p_map_match l of
                        None \<Rightarrow> snd strs
                      | Some (g1, g2) \<Rightarrow>
                          if g2 \<noteq> ''Macragge'' then dict_set g1 g2 (snd strs) else snd strs)
      in (tank_strs, map_strs))"

definition read_user_strs ::
  "blitz_files \<Rightarrow> string \<Rightarrow> report list \<times> (abort + (string, string) dict \<times> (string, string) dict)" where
  "read_user_strs fs blitz_app_base =
     (let filename = path_join blitz_app_base [BLITZAPP_STRINGS]
      in case strings_file fs filename of
           None \<Rightarrow> ([Error_file filename], Inl (SystemExit 1))
         | Some ls \<Rightarrow> ([], Inr (fold read_line ls ([], []))))"

section \<open>Name resolver\<close>

text \<open>
  \<open>convert_tank_names\<close> works on each record of \<open>tanklist\<close> in place. \<open>resolve_name\<close> is
  the choice of the name, \<open>process_tank\<close> the whole body of the inner \<open>try\<close>: it returns the
  record as the body leaves it, and either the exception that ended the body or the key
  and the re-keyed copy to store in \<open>tankopedia\<close>.
\<close>

definition resolve_name :: "(string, string) dict \<Rightarrow> pyval \<Rightarrow> pyexc + string" where
  \<comment> \<open>\<open>tank_strs[u] if u in tank_strs else u.split(':')[1]\<close>; a dict or a list cannot be
      hashed for the membership test, and only a string has \<open>split\<close>\<close>
  "resolve_name tank_strs u =
     (case u of
        PyStr s \<Rightarrow>
          (case dict_find tank_strs s of
             Some text \<Rightarrow> Inr text
           | None \<Rightarrow> index_py (split_py CHR '':'' s) 1)
      | PyDict r \<Rightarrow> Inl TypeError
      | PyList r \<Rightarrow> Inl TypeError
      | _ \<Rightarrow> Inl AttributeError)"

definition rekey :: "tank \<Rightarrow> tank" where
  \<comment> \<open>\<open>tank_tmp\<close>: the items of the record, inserted in the sorted order of its keys\<close>
  "rekey tank =
     fold (\<lambda>key tank_tmp. case dict_find tank key of
                             None \<Rightarrow> tank_tmp
                           | Some v \<Rightarrow> dict_set key v tank_tmp)
       (sort (dict_keys tank)) []"

definition process_tank :: "(string, string) dict \<Rightarrow> tank \<Rightarrow> tank \<times> (pyexc + string \<times> tank)" where
  "process_tank tank_strs tank =
     (case dict_get tank ''userStr'' of
        Inl e \<Rightarrow> (tank, Inl e)
      | Inr u \<Rightarrow>
          (case resolve_name tank_strs u of
             Inl e \<Rightarrow> (tank, Inl e)
           | Inr name \<Rightarrow>
               (let tank1 = dict_set ''name'' (PyStr name) tank;
                    tank2 = dict_pop ''userStr'' tank1;
                    tank_tmp = rekey tank2
                in case dict_get tank2 ''tank_id'' of
                     Inl e \<Rightarrow> (tank2, Inl e)
                   | Inr tid \<Rightarrow> (tank2, Inr (str_py tid, tank_tmp)))))"

text \<open>
  The state of the first loop: the records seen so far as the loop leaves them, the
  reports, and \<open>tankopedia\<close>. The bare \<open>except\<close> reports the record and goes on.
\<close>

record convert_state =
  cs_tanklist :: "tank list"
  cs_reports :: "report list"
  cs_tankopedia :: "(string, tank) dict"

definition convert_step :: "(string, string) dict \<Rightarrow> tank \<Rightarrow> convert_state \<Rightarrow> convert_state" where
  "convert_step tank_strs tank st =
     (case process_tank tank_strs tank of
        (tank', Inl e) \<Rightarrow>
          st \<lparr> cs_tanklist := cs_tanklist st @ [tank'],
               cs_reports := cs_reports st @ [Error_tank tank'] \<rparr>
      | (tank', Inr (key, tank_tmp)) \<Rightarrow>
          st \<lparr> cs_tanklist := cs_tanklist st @ [tank'],
               cs_tankopedia := dict_set key tank_tmp (cs_tankopedia st) \<rparr>)"

definition convert_tanks :: "(string, string) dict \<Rightarrow> tank list \<Rightarrow> convert_state" where
  "convert_tanks tank_strs tanklist =
     fold (convert_step tank_strs) tanklist
       \<lparr> cs_tanklist = [], cs_reports = [], cs_tankopedia = [] \<rparr>"

text \<open>
  The second loop filters the vehicle strings. The four patterns are tried with \<open>match\<close>,
  which looks for the pattern at the start of the key only: \<^verbatim>\<open>_short$\<close> is looked for at
  the start as well.
\<close>

datatype regex = Caret_Lit string | Lit_Dollar string

fun re_match :: "regex \<Rightarrow> string \<Rightarrow> bool" where
  \<comment> \<open>\<open>re.compile(p).match(s) is not None\<close>\<close>
  "re_match (Caret_Lit lit) s = (strip_prefix lit s \<noteq> None)"
| "re_match (Lit_Dollar lit) s =
     (case strip_prefix lit s of None \<Rightarrow> False | Some r \<Rightarrow> at_dollar r)"

definition re_strs :: "regex list" where
  "re_strs = [Caret_Lit ''Chassis_'', Caret_Lit ''Turret_'', Caret_Lit ''_'', Lit_Dollar ''_short'']"

definition user_str_step ::
  "(string, string) dict \<Rightarrow> string \<Rightarrow> (string, string) dict \<Rightarrow> pyexc + (string, string) dict" where
  "user_str_step tank_strs tank_str userStrs =
     (case index_py (split_py CHR '':'' tank_str) 1 of
        Inl e \<Rightarrow> Inl e
      | Inr key \<Rightarrow>
          (if list_ex (\<lambda>p. re_match p key) re_strs then Inr userStrs
           else (case dict_get tank_strs tank_str of
                   Inl e \<Rightarrow> Inl e
                 | Inr text \<Rightarrow> Inr (dict_set key text userStrs))))"

fun user_strs_loop ::
  "(string, string) dict \<Rightarrow> string list \<Rightarrow> (string, string) dict \<Rightarrow> pyexc + (string, string) dict" where
  "user_strs_loop tank_strs [] userStrs = Inr userStrs"
| "user_strs_loop tank_strs (k # ks) userStrs =
     (case user_str_step tank_strs k userStrs of
        Inl e \<Rightarrow> Inl e
      | Inr userStrs' \<Rightarrow> user_strs_loop tank_strs ks userStrs')"

definition sort_tankopedia :: "(string, tank) dict \<Rightarrow> pyexc + (string, tank) dict" where
  \<comment> \<open>\<open>tankopedia_sorted\<close>: the keys sorted with \<open>key=int\<close>, each stored with its record\<close>
  "sort_tankopedia tankopedia =
     (case sorted_by int_py (dict_keys tankopedia) of
        Inl e \<Rightarrow> Inl e
      | Inr ks \<Rightarrow>
          Inr (fold (\<lambda>tank_id sorted. case dict_find tankopedia tank_id of
                                        None \<Rightarrow> sorted
                                      | Some t \<Rightarrow> dict_set tank_id t sorted) ks []))"

definition sort_userStrs :: "(string, string) dict \<Rightarrow> (string, string) dict" where
  "sort_userStrs userStrs =
     fold (\<lambda>userStr sorted. case dict_find userStrs userStr of
                               None \<Rightarrow> sorted
                             | Some t \<Rightarrow> dict_set userStr t sorted)
       (sort (dict_keys userStrs)) []"

text \<open>
  The result of \<open>convert_tank_names\<close>: the caller's list as the function leaves it, the
  reports, and either \<open>sys.exit(1)\<close> or the two sorted dictionaries.
\<close>

definition convert_tank_names ::
  "tank list \<Rightarrow> (string, string) dict
     \<Rightarrow> tank list \<times> report list \<times> (abort + (string, tank) dict \<times> (string, string) dict)" where
  "convert_tank_names tanklist tank_strs =
     (let st = convert_tanks tank_strs tanklist
      in case user_strs_loop tank_strs (dict_keys tank_strs) [] of
           Inl e \<Rightarrow> (cs_tanklist st, cs_reports st @ [Error_exc e], Inl (SystemExit 1))
         | Inr userStrs \<Rightarrow>
             (case sort_tankopedia (cs_tankopedia st) of
                Inl e \<Rightarrow> (cs_tanklist st, cs_reports st @ [Error_exc e], Inl (SystemExit 1))
              | Inr tankopedia_sorted \<Rightarrow>
                  (cs_tanklist st, cs_reports st,
                   Inr (tankopedia_sorted, sort_userStrs userStrs))))"

section \<open>Catalog persistence\<close>

text \<open>
  Modelled from the spec: \<open>bu.sort_dict\<close> belongs to the module \<open>blitzutils\<close>, whose code is
  not part of the sources at hand. The specification asks for a deterministic key
  ordering, numeric for the \<open>data\<close> field of the tankopedia and lexicographic for
  \<open>userStr\<close>: with \<open>number=True\<close> the items are sorted by the integer their key stands
  for, otherwise by the key itself. A key that is no integer raises, as \<open>int\<close> does.
\<close>

definition sort_dict :: "(string, 'v) dict \<Rightarrow> bool \<Rightarrow> pyexc + (string, 'v) dict" where
  "sort_dict d number =
     (if number then sorted_by (\<lambda>item. int_py (fst item)) d
      else Inr (sort_key fst d))"

text \<open>
  A file of an earlier run, as \<open>json.loads\<close> returns it: the file may be absent; reading
  or parsing it may raise; the text may be JSON but no object (a list, a string, a
  number, \<open>null\<close>); or it is an object. In an object, an entry that \<open>main\<close> reads may be
  missing, may hold a value that is no object, or holds an object.
\<close>

datatype 'a prior_file = Absent | Unreadable | No_object | Content 'a

datatype 'a json_entry = Missing | Not_object | Object 'a

record tankopedia_json =
  json_userStr :: "(string, string) dict json_entry"
  json_data :: "(string, tank) dict json_entry"

text \<open>
  The variables \<open>userStrs\<close>, \<open>tanks\<close> and \<open>maps\<close> of \<open>main\<close> hold what was loaded, whatever it
  is: a dictionary, or some other value, on which \<open>update\<close> raises \<open>AttributeError\<close>.
\<close>

datatype 'a loaded = Dict 'a | Other

definition entry_value :: "'a json_entry \<Rightarrow> pyexc + 'a loaded" where
  \<comment> \<open>\<open>json_data[key]\<close>\<close>
  "entry_value e = (case e of Missing \<Rightarrow> Inl KeyError | Not_object \<Rightarrow> Inr Other | Object d \<Rightarrow> Inr (Dict d))"

definition load_tankopedia ::
  "tankopedia_json prior_file
     \<Rightarrow> report list \<times> (string, string) dict loaded \<times> (string, tank) dict loaded" where
  \<comment> \<open>lines 69 to 79: the reports, \<open>userStrs\<close> and \<open>tanks\<close>. An exception is reported and
      what was assigned before it stays.\<close>
  "load_tankopedia file =
     (case file of
        Absent \<Rightarrow> ([], Dict [], Dict [])
      | Unreadable \<Rightarrow> ([Error_exc ValueError], Dict [], Dict [])
      | No_object \<Rightarrow> ([Error_exc TypeError], Dict [], Dict [])
      | Content json_data' \<Rightarrow>
          (case entry_value (json_userStr json_data') of
             Inl e \<Rightarrow> ([Error_exc e], Dict [], Dict [])
           | Inr userStrs \<Rightarrow>
               (case entry_value (json_data json_data') of
                  Inl e \<Rightarrow> ([Error_exc e], userStrs, Dict [])
                | Inr tanks \<Rightarrow> ([], userStrs, tanks))))"

definition load_maps ::
  "(string, string) dict prior_file \<Rightarrow> report list \<times> (string, string) dict loaded" where
  \<comment> \<open>lines 96 to 102\<close>
  "load_maps file =
     (case file of
        Absent \<Rightarrow> ([], Dict [])
      | Unreadable \<Rightarrow> ([Error_exc ValueError], Dict [])
      | No_object \<Rightarrow> ([], Other)
      | Content maps \<Rightarrow> ([], Dict maps))"

definition update_py :: "('k, 'v) dict loaded \<Rightarrow> ('k, 'v) dict \<Rightarrow> pyexc + ('k, 'v) dict" where
  \<comment> \<open>\<open>x.update(new)\<close> for a loaded value \<open>x\<close>\<close>
  "update_py x new = (case x of Other \<Rightarrow> Inl AttributeError | Dict d \<Rightarrow> Inr (dict_update d new))"

text \<open>
  What \<open>main\<close> writes. The text of a file is made by \<open>json.dumps\<close>, which keeps the order
  of the items it is given (and sorts them by key first when \<open>sort_keys\<close> is set): the
  model gives the items in the order in which they are written.
\<close>

record tankopedia_out =
  out_status :: string
  out_count :: nat
  out_data :: "(string, tank) dict"
  out_userStr :: "(string, string) dict"

definition merge_tankopedia ::
  "(string, tank) dict loaded \<Rightarrow> (string, string) dict loaded
     \<Rightarrow> (string, tank) dict \<Rightarrow> (string, string) dict \<Rightarrow> pyexc + tankopedia_out" where
  \<comment> \<open>lines 84 to 90: the new data is merged into the old and the \<open>tankopedia\<close> object is
      built\<close>
  "merge_tankopedia tanks userStrs new_tanks new_userStrs =
     (case update_py tanks new_tanks of Inl e \<Rightarrow> Inl e | Inr tanks' \<Rightarrow>
      case update_py userStrs new_userStrs of Inl e \<Rightarrow> Inl e | Inr userStrs' \<Rightarrow>
      case sort_dict tanks' True of Inl e \<Rightarrow> Inl e | Inr data \<Rightarrow>
      case sort_dict userStrs' False of Inl e \<Rightarrow> Inl e | Inr userStr \<Rightarrow>
        Inr \<lparr> out_status = ''ok'', out_count = length tanks',
              out_data = data, out_userStr = userStr \<rparr>)"

definition dumps_sort_keys :: "(string, 'v) dict \<Rightarrow> (string, 'v) dict" where
  \<comment> \<open>the order of the items in \<open>json.dumps(d, sort_keys=True)\<close>\<close>
  "dumps_sort_keys d = sort_key fst d"

record run_input =
  in_wg :: WG
  in_files :: blitz_files
  in_base :: string
  in_tanks_file :: "tankopedia_json prior_file"
  in_maps_file :: "(string, string) dict prior_file"

text \<open>
  The outcome of a run: what has become of the two files, and how the run ended. A file
  is opened for writing before its text is made, so a run that ends in between leaves it
  empty.
\<close>

datatype 'a file_after = Untouched | Emptied | Written 'a

record run_result =
  tanks_file :: "tankopedia_out file_after"
  maps_file :: "(string, string) dict file_after"
  run_end :: "abort option"  \<comment> \<open>\<open>None\<close>: \<open>main\<close> returns\<close>

definition main_extract ::
  "run_input \<Rightarrow> abort + tank list \<times> (string, string) dict \<times> (string, string) dict" where
  \<comment> \<open>lines 59 to 67: \<open>tanklist\<close>, \<open>tank_strs\<close> and \<open>map_strs\<close>\<close>
  "main_extract inp =
     (case snd (main_tanklist (in_wg inp) (in_files inp) (in_base inp)) of
        Inl a \<Rightarrow> Inl a
      | Inr tanklist \<Rightarrow>
          (case snd (read_user_strs (in_files inp) (in_base inp)) of
             Inl a \<Rightarrow> Inl a
           | Inr (tank_strs, map_strs) \<Rightarrow> Inr (tanklist, tank_strs, map_strs)))"

definition main :: "run_input \<Rightarrow> run_result" where
  "main inp =
     (case main_extract inp of
        Inl a \<Rightarrow> \<lparr> tanks_file = Untouched, maps_file = Untouched, run_end = Some a \<rparr>
      | Inr (tanklist, tank_strs, map_strs) \<Rightarrow>
     (case load_tankopedia (in_tanks_file inp) of (reports, userStrs, tanks) \<Rightarrow>
     (case snd (snd (convert_tank_names tanklist tank_strs)) of
        Inl a \<Rightarrow> \<lparr> tanks_file = Emptied, maps_file = Untouched, run_end = Some a \<rparr>
      | Inr (new_tanks, new_userStrs) \<Rightarrow>
     (case merge_tankopedia tanks userStrs new_tanks new_userStrs of
        Inl e \<Rightarrow> \<lparr> tanks_file = Emptied, maps_file = Untouched, run_end = Some (Uncaught e) \<rparr>
      | Inr tankopedia \<Rightarrow>
     (case update_py (snd (load_maps (in_maps_file inp))) map_strs of
        Inl e \<Rightarrow> \<lparr> tanks_file = Written tankopedia, maps_file = Untouched,
                   run_end = Some (Uncaught e) \<rparr>
      | Inr maps \<Rightarrow> \<lparr> tanks_file = Written tankopedia,
                      maps_file = Written (dumps_sort_keys maps), run_end = None \<rparr>)))))"

section \<open>Notions used in the statements\<close>


definition canonical_key :: "string \<Rightarrow> bool" where
  \<comment> \<open>the key is the text \<open>str(n)\<close> of the integer \<open>n\<close> it stands for\<close>
  "canonical_key k = (case int_py k of Inl e \<Rightarrow> False | Inr n \<Rightarrow> str_int n = k)"

definition overlay :: "('k, 'v) dict \<Rightarrow> ('k, 'v) dict \<Rightarrow> ('k, 'v) dict \<Rightarrow> bool" where
  \<comment> \<open>\<open>merged\<close> has the keys of \<open>prior\<close> and \<open>new\<close>, with the value of \<open>new\<close> where \<open>new\<close> has
      the key and the value of \<open>prior\<close> elsewhere\<close>
  "overlay prior new merged =
     (set (dict_keys merged) = set (dict_keys prior) \<union> set (dict_keys new)
      \<and> (\<forall>k \<in> set (dict_keys new). dict_find merged k = dict_find new k)
      \<and> (\<forall>k \<in> set (dict_keys prior) - set (dict_keys new). dict_find merged k = dict_find prior k))"

section \<open>Sample inputs\<close>

text \<open>Small concrete inputs on which the functions are evaluated below.\<close>

definition tank_xml_sample :: "(string, pyval) dict" where
  "tank_xml_sample =
     [(''id'', PyStr ''100''), (''userString'', PyStr ''#usa_vehicles:T34''),
      (''price'', PyDict ''{gold: 1500}''), (''level'', PyStr ''5''),
      (''tags'', PyStr ''lightTank scout'')]"

definition lines_sample :: "string list" where
  \<comment> \<open>three lines of a strings file: two maps, one of them \<open>Macragge\<close>, and a vehicle\<close>
  "lines_sample =
     [[dquote] @ ''#maps:desert:02_desert/name: '' @ [dquote] @ ''Desert Sands'' @ [dquote, newline],
      [dquote] @ ''#maps:holland:x/name: '' @ [dquote] @ ''Macragge'' @ [dquote, newline],
      [dquote] @ ''#usa_vehicles:M4'' @ [dquote] @ '': '' @ [dquote] @ ''Sherman'' @ [dquote, newline]]"

definition files_sample :: blitz_files where
  \<comment> \<open>an unpacked game with the vehicle list of one nation only\<close>
  "files_sample =
     \<lparr> isdir = (\<lambda>p. p = ''app/assets''),
       vehicle_file =
         (\<lambda>p. if p = ''app/assets/Data/XML/item_defs/vehicles/usa/list.xml''
              then Some (Some [(''T34'', tank_xml_sample)]) else None),
       strings_file = (\<lambda>p. if p = ''app/Data/Strings/en.yaml'' then Some lines_sample else None) \<rparr>"

definition tank_sample :: tank where
  "tank_sample =
     [(''is_premium'', PyBool True), (''nation'', PyStr ''usa''), (''tank_id'', PyInt 25633),
      (''tier'', PyInt 5), (''type'', PyStr ''lightTank''),
      (''userStr'', PyStr ''#usa_vehicles:T34'')]"

definition tank_nocolon :: tank where
  "tank_nocolon =
     [(''is_premium'', PyBool False), (''nation'', PyStr ''usa''), (''tank_id'', PyInt 513),
      (''tier'', PyInt 1), (''type'', PyNone), (''userStr'', PyStr ''T1'')]"

definition run_sample ::
  "tankopedia_json prior_file \<Rightarrow> (string, string) dict prior_file \<Rightarrow> run_input" where
  \<comment> \<open>a run on the sample files with one nation, and the given files of an earlier run\<close>
  "run_sample prior prior_maps =
     \<lparr> in_wg = WG_sample \<lparr> NATION := [''usa''] \<rparr>, in_files = files_sample, in_base = ''app'',
       in_tanks_file = prior, in_maps_file = prior_maps \<rparr>"

definition maps_sample :: "(string, string) dict prior_file" where
  \<comment> \<open>the maps file of an earlier run, with an older text for \<open>desert\<close>\<close>
  "maps_sample = Content [(''rock'', ''Rockfield''), (''desert'', ''Sands'')]"

definition record_sample :: tank where
  "record_sample =
     [(''is_premium'', PyBool True), (''name'', PyStr ''T34''), (''nation'', PyStr ''usa''),
      (''tank_id'', PyInt 25633), (''tier'', PyInt 5), (''type'', PyStr ''lightTank'')]"

definition prior_sample :: "tankopedia_json prior_file" where
  \<comment> \<open>the tankopedia file of an earlier run, with an older text for \<open>M4\<close>\<close>
  "prior_sample =
     Content \<lparr> json_userStr = Object [(''M4'', ''Pershing''), (''A'', ''a'')],
               json_data = Object [(''25633'', []), (''7'', [])] \<rparr>"

section \<open>Dictionaries\<close>

lemma map_of_dict_set: "map_of (dict_set k v d) = (map_of d)(k \<mapsto> v)"
  by (induction d) (auto simp: fun_eq_iff)

lemma dict_find_dict_set:
  "dict_find (dict_set k v d) k' = (if k' = k then Some v else dict_find d k')"
  by (simp add: dict_find_def map_of_dict_set)

lemma keys_dict_set: "set (dict_keys (dict_set k v d)) = insert k (set (dict_keys d))"
  by (induction d) (auto simp: dict_keys_def)

lemma is_dict_dict_set: "is_dict d \<Longrightarrow> is_dict (dict_set k v d)"
proof (induction d)
  case Nil
  then show ?case by (simp add: is_dict_def)
next
  case (Cons p d)
  have "set (map fst (dict_set k v d)) = insert k (set (map fst d))"
    using keys_dict_set [of k v d] by (simp add: dict_keys_def)
  then show ?case
    using Cons by (auto simp: is_dict_def)
qed

lemma dict_find_None_iff: "dict_find d k = None \<longleftrightarrow> k \<notin> set (dict_keys d)"
  by (simp add: dict_find_def dict_keys_def map_of_eq_None_iff)

lemma dict_find_Some_is_dict:
  "is_dict d \<Longrightarrow> dict_find d k = Some v \<longleftrightarrow> (k, v) \<in> set d"
  by (simp add: dict_find_def is_dict_def)

lemma dict_find_dict_pop:
  "dict_find (dict_pop k d) k' = (if k' = k then None else dict_find d k')"
  by (induction d) (auto simp: dict_find_def dict_pop_def)

lemma dict_update_Nil [simp]: "dict_update d [] = d"
  by (simp add: dict_update_def)

lemma dict_update_Cons [simp]:
  "dict_update d (p # new) = dict_update (dict_set (fst p) (snd p) d) new"
  by (simp add: dict_update_def)

lemma is_dict_dict_update: "is_dict d \<Longrightarrow> is_dict (dict_update d new)"
  by (induction new arbitrary: d) (simp_all add: is_dict_dict_set)

lemma keys_dict_update:
  "set (dict_keys (dict_update d new)) = set (dict_keys d) \<union> set (dict_keys new)"
proof (induction new arbitrary: d)
  case Nil
  then show ?case by (simp add: dict_keys_def)
next
  case (Cons p new)
  have "set (dict_keys (p # new)) = insert (fst p) (set (dict_keys new))"
    by (simp add: dict_keys_def)
  then show ?case
    by (simp add: Cons keys_dict_set)
qed

lemma dict_find_dict_update_notin:
  "k \<notin> set (dict_keys new) \<Longrightarrow> dict_find (dict_update d new) k = dict_find d k"
proof (induction new arbitrary: d)
  case Nil
  then show ?case by simp
next
  case (Cons p new)
  then have "k \<noteq> fst p" "k \<notin> set (dict_keys new)"
    by (simp_all add: dict_keys_def)
  then show ?case
    by (simp add: Cons.IH dict_find_dict_set)
qed

lemma dict_find_dict_update_in:
  "is_dict new \<Longrightarrow> dict_find new k = Some v \<Longrightarrow> dict_find (dict_update d new) k = Some v"
proof (induction new arbitrary: d)
  case Nil
  then show ?case by (simp add: dict_find_def)
next
  case (Cons p new)
  have d: "is_dict new" and notin: "fst p \<notin> set (dict_keys new)"
    using Cons.prems(1) by (simp_all add: is_dict_def dict_keys_def)
  show ?case
  proof (cases "k = fst p")
    case True
    then have "v = snd p"
      using Cons.prems(2) by (simp add: dict_find_def)
    then show ?thesis
      using True notin by (simp add: dict_find_dict_update_notin dict_find_dict_set)
  next
    case False
    then have "dict_find new k = Some v"
      using Cons.prems(2) by (simp add: dict_find_def)
    then show ?thesis
      using Cons.IH [OF d] by simp
  qed
qed

section \<open>Integers and their text\<close>

lemma digit_chars:
  "digit_char 0 = CHR ''0''" "digit_char 1 = CHR ''1''" "digit_char 2 = CHR ''2''"
  "digit_char 3 = CHR ''3''" "digit_char 4 = CHR ''4''" "digit_char 5 = CHR ''5''"
  "digit_char 6 = CHR ''6''" "digit_char 7 = CHR ''7''" "digit_char 8 = CHR ''8''"
  "digit_char 9 = CHR ''9''"
  unfolding digit_char_def by code_simp+

lemma of_char_digit_char: "d < 10 \<Longrightarrow> (of_char (digit_char d) :: nat) = 48 + d"
  by (simp add: digit_char_def)

lemma is_digit_digit_char: "d < 10 \<Longrightarrow> is_digit (digit_char d)"
  by (simp add: is_digit_def of_char_digit_char)

lemma not_space_digit_char: "d < 10 \<Longrightarrow> \<not> is_space (digit_char d)"
  by (simp add: is_space_def of_char_digit_char)

lemma parse_digits_digit:
  "d < 10 \<Longrightarrow> parse_digits prev acc (digit_char d # cs) = parse_digits True (acc * 10 + d) cs"
  by (simp add: is_digit_digit_char of_char_digit_char)

text \<open>Reading the text of a natural number gives the number back.\<close>

lemma parse_digits_str_nat:
  "parse_digits prev acc (str_nat n @ cs)
     = parse_digits True (acc * 10 ^ length (str_nat n) + n) cs"
proof (induction n arbitrary: prev acc cs rule: str_nat.induct)
  case (1 n)
  show ?case
  proof (cases "n < 10")
    case True
    then show ?thesis
      by (simp add: str_nat.simps [of n] parse_digits_digit del: parse_digits.simps)
  next
    case False
    have m: "n mod 10 < 10"
      by simp
    have "parse_digits prev acc (str_nat n @ cs)
        = parse_digits prev acc (str_nat (n div 10) @ (digit_char (n mod 10) # cs))"
      using False by (simp add: str_nat.simps [of n])
    also have "\<dots> = parse_digits True (acc * 10 ^ length (str_nat (n div 10)) + n div 10)
                       (digit_char (n mod 10) # cs)"
      using False by (rule "1.IH")
    also have "\<dots> = parse_digits True
                       ((acc * 10 ^ length (str_nat (n div 10)) + n div 10) * 10 + n mod 10) cs"
      using m by (rule parse_digits_digit)
    also have "(acc * 10 ^ length (str_nat (n div 10)) + n div 10) * 10 + n mod 10
             = acc * 10 ^ length (str_nat n) + n"
      using False by (simp add: str_nat.simps [of n] algebra_simps)
    finally show ?thesis .
  qed
qed

lemma str_nat_shape:
  "str_nat n \<noteq> [] \<and> \<not> is_space (hd (str_nat n)) \<and> \<not> is_space (last (str_nat n))
   \<and> hd (str_nat n) \<noteq> CHR ''-'' \<and> hd (str_nat n) \<noteq> CHR ''+''"
proof (induction n rule: str_nat.induct)
  case (1 n)
  show ?case
  proof (cases "n < 10")
    case True
    have "of_char (digit_char n) \<noteq> (45::nat)" "of_char (digit_char n) \<noteq> (43::nat)"
      using True by (simp_all add: of_char_digit_char)
    then have "digit_char n \<noteq> CHR ''-''" "digit_char n \<noteq> CHR ''+''"
      by auto
    then show ?thesis
      using True by (simp add: str_nat.simps [of n] not_space_digit_char)
  next
    case False
    then show ?thesis
      using "1.IH" by (simp add: str_nat.simps [of n] not_space_digit_char)
  qed
qed

lemma strip_py_id:
  assumes "s \<noteq> []" "\<not> is_space (hd s)" "\<not> is_space (last s)"
  shows "strip_py s = s"
proof -
  have a: "dropWhile is_space s = s"
    using assms(1,2) by (cases s) simp_all
  have "dropWhile is_space (rev s) = rev s"
    using assms(1,3) by (cases "rev s") (simp_all add: last_rev [symmetric] hd_rev)
  then show ?thesis
    by (simp add: strip_py_def a)
qed

lemma int_py_str_int: "int_py (str_int i) = Inr i"
proof (cases "i < 0")
  case True
  define n where "n = nat (- i)"
  have sh: "str_nat n \<noteq> []" "\<not> is_space (last (str_nat n))"
    using str_nat_shape [of n] by simp_all
  have "\<not> is_space (CHR ''-'')"
    by (simp add: is_space_def)
  then have "strip_py (CHR ''-'' # str_nat n) = CHR ''-'' # str_nat n"
    using sh by (intro strip_py_id) simp_all
  moreover have "parse_digits False 0 (str_nat n) = Some n"
    using parse_digits_str_nat [of False 0 n "[]"] by simp
  ultimately show ?thesis
    using True by (simp add: int_py_def str_int_def n_def del: parse_digits.simps)
next
  case False
  define n where "n = nat i"
  note sh = str_nat_shape [of n]
  have s: "strip_py (str_nat n) = str_nat n"
    using sh by (intro strip_py_id) simp_all
  have p: "parse_digits False 0 (str_nat n) = Some n"
    using parse_digits_str_nat [of False 0 n "[]"] by simp
  obtain c cs where c: "str_nat n = c # cs"
    using sh by (cases "str_nat n") auto
  then have "c \<noteq> CHR ''-''" "c \<noteq> CHR ''+''"
    using sh by simp_all
  then have "int_py (c # cs) = (case parse_digits False 0 (c # cs) of
                                  None \<Rightarrow> Inl ValueError | Some n \<Rightarrow> Inr (int n))"
    using s [unfolded c] by (simp add: int_py_def del: parse_digits.simps)
  then have "int_py (str_nat n) = Inr (int n)"
    using p by (simp add: c del: parse_digits.simps)
  then show ?thesis
    using False by (simp add: str_int_def n_def)
qed

lemma canonical_key_str_int: "canonical_key (str_int i)"
  by (simp add: canonical_key_def int_py_str_int)

lemma canonical_key_inj:
  "canonical_key a \<Longrightarrow> canonical_key b \<Longrightarrow> int_py a = int_py b \<Longrightarrow> a = b"
  by (auto simp: canonical_key_def split: sum.splits)

section \<open>Sorting\<close>

lemma decorate_Inr:
  "decorate f xs = Inr kxs \<Longrightarrow>
     kxs = map (\<lambda>x. (projr (f x), x)) xs \<and> (\<forall>x \<in> set xs. f x = Inr (projr (f x)))"
  by (induction xs arbitrary: kxs) (auto split: sum.splits)

lemma decorate_Inl:
  "decorate f xs = Inl e \<Longrightarrow> \<exists>x \<in> set xs. f x = Inl e"
  by (induction xs) (auto split: sum.splits)

lemma insort_key_decorated:
  "insort_key fst (g x, x) (map (\<lambda>x. (g x, x)) ys) = map (\<lambda>x. (g x, x)) (insort_key g x ys)"
  by (induction ys) simp_all

lemma sort_key_decorated:
  "sort_key fst (map (\<lambda>x. (g x, x)) xs) = map (\<lambda>x. (g x, x)) (sort_key g xs)"
  by (induction xs) (simp_all add: insort_key_decorated)

lemma sorted_by_Inr:
  assumes "sorted_by f xs = Inr ys"
  shows "ys = sort_key (\<lambda>x. projr (f x)) xs" and "\<forall>x \<in> set xs. f x = Inr (projr (f x))"
proof -
  obtain kxs where d: "decorate f xs = Inr kxs" and y: "ys = map snd (sort_key fst kxs)"
    using assms by (auto simp: sorted_by_def split: sum.splits)
  note k = decorate_Inr [OF d]
  show "\<forall>x \<in> set xs. f x = Inr (projr (f x))"
    using k by simp
  have "ys = map snd (map (\<lambda>x. (projr (f x), x)) (sort_key (\<lambda>x. projr (f x)) xs))"
    using k y by (simp add: sort_key_decorated)
  then show "ys = sort_key (\<lambda>x. projr (f x)) xs"
    by (simp add: comp_def)
qed

lemma sorted_by_Inl:
  "sorted_by f xs = Inl e \<Longrightarrow> \<exists>x \<in> set xs. f x = Inl e"
  by (auto simp: sorted_by_def split: sum.splits dest: decorate_Inl)

lemma sorted_by_succeeds:
  assumes "\<forall>x \<in> set xs. \<exists>k. f x = Inr k"
  shows "\<exists>ys. sorted_by f xs = Inr ys"
proof (cases "sorted_by f xs")
  case (Inl e)
  then show ?thesis
    using assms sorted_by_Inl [OF Inl] by auto
next
  case (Inr ys)
  then show ?thesis by simp
qed

lemma is_dict_sort_key: "is_dict d \<Longrightarrow> is_dict (sort_key g d)"
  by (simp add: is_dict_def distinct_map)

lemma keys_sort_key: "set (dict_keys (sort_key g d)) = set (dict_keys d)"
  by (simp add: dict_keys_def)

lemma dict_find_sort_key:
  assumes "is_dict d"
  shows "dict_find (sort_key g d) k = dict_find d k"
proof -
  have "map_of (sort_key g d) = map_of d"
    using assms is_dict_sort_key [OF assms, of g]
    by (simp add: is_dict_def map_of_inject_set)
  then show ?thesis
    by (simp add: dict_find_def)
qed

lemma sorted_keys_sort_key:
  assumes "is_dict d"
  shows "sorted_wrt (<) (dict_keys (sort_key fst d))"
proof -
  have "sorted (map fst (sort_key fst d))"
    by (rule sorted_sort_key)
  moreover have "distinct (map fst (sort_key fst d))"
    using is_dict_sort_key [OF assms, of fst] by (simp add: is_dict_def)
  ultimately show ?thesis
    by (simp add: dict_keys_def strict_sorted_iff)
qed

text \<open>
  A list of keys, stored one after the other in an empty dictionary, gives a dictionary
  with these keys in this order.
\<close>

lemma dict_set_new: "k \<notin> set (dict_keys d) \<Longrightarrow> dict_set k v d = d @ [(k, v)]"
  by (induction d) (auto simp: dict_keys_def)

lemma keys_fold_store:
  assumes "distinct ks" and "set ks \<inter> set (dict_keys acc) = {}"
    and "\<forall>k \<in> set ks. dict_find d k \<noteq> None"
  shows "dict_keys (fold (\<lambda>k s. case dict_find d k of None \<Rightarrow> s | Some v \<Rightarrow> dict_set k v s) ks acc)
       = dict_keys acc @ ks"
  using assms
proof (induction ks arbitrary: acc)
  case Nil
  then show ?case by simp
next
  case (Cons k ks)
  obtain v where v: "dict_find d k = Some v"
    using Cons.prems(3) by auto
  have n: "k \<notin> set (dict_keys acc)"
    using Cons.prems(2) by auto
  have a: "dict_keys (dict_set k v acc) = dict_keys acc @ [k]"
    using n by (simp add: dict_set_new) (simp add: dict_keys_def)
  have "dict_keys (fold (\<lambda>k s. case dict_find d k of None \<Rightarrow> s | Some v \<Rightarrow> dict_set k v s) ks
          (dict_set k v acc)) = dict_keys (dict_set k v acc) @ ks"
    using Cons.prems by (intro Cons.IH) (auto simp: a)
  then show ?case
    by (simp add: v a)
qed

section \<open>Properties of the identifier encoder\<close>

lemma bit_small_int:
  assumes "0 \<le> (m::int)" "m < 2 ^ k" "k \<le> n"
  shows "\<not> bit m n"
proof -
  have "(2::int) ^ k \<le> 2 ^ n" using assms(3) by (simp add: power_increasing)
  then have "m < 2 ^ n" using assms(2) by linarith
  then have "m div 2 ^ n = 0" using assms(1) by simp
  then show ?thesis by (simp add: bit_iff_odd)
qed

lemma push_bit_or_small:
  assumes "0 \<le> (m::int)" "m < 2 ^ k"
  shows "push_bit k r OR m = push_bit k r + m"
proof (rule disjunctive_add [symmetric])
  fix n
  show "\<not> bit (push_bit k r) n \<or> \<not> bit m n"
    using bit_small_int [OF assms, of n] by (auto simp: bit_push_bit_iff)
qed

text \<open>
  For a nation index between 0 and 15 the three fields of the identifier do not overlap,
  so the bitwise "or" of the specification and the sum of the code agree.
\<close>

lemma encode_id_plus:
  assumes "0 \<le> i" "i \<le> 15"
  shows "encode_id i r = r * 256 + i * 16 + 1"
proof -
  have a: "push_bit 4 i OR (1::int) = push_bit 4 i + 1"
    by (rule push_bit_or_small) simp_all
  have b: "push_bit 8 r OR (push_bit 4 i + 1) = push_bit 8 r + (push_bit 4 i + 1)"
    using assms by (intro push_bit_or_small) (simp_all add: push_bit_eq_mult)
  have "encode_id i r = push_bit 8 r OR (push_bit 4 i OR 1)"
    by (simp add: encode_id_def)
  also have "\<dots> = push_bit 8 r + (push_bit 4 i + 1)"
    by (simp only: a b)
  finally show ?thesis
    by (simp add: push_bit_eq_mult)
qed

lemma get_tank_id_eq:
  "get_tank_id (Some wg) nation r =
     (case dict_find (NATION_ID wg) nation of
        None \<Rightarrow> Inl KeyError
      | Some i \<Rightarrow> Inr (r * 256 + i * 16 + 1))"
  by (simp add: get_tank_id_def dict_get_def dict_find_def push_bit_eq_mult split: option.splits)

lemma pack_inj:
  assumes "r1 * 256 + i1 * 16 + 1 = r2 * 256 + i2 * 16 + (1::int)"
    and "0 \<le> i1" "i1 \<le> 15" "0 \<le> i2" "i2 \<le> 15"
  shows "i1 = i2 \<and> r1 = r2"
proof -
  have "16 * (i1 - i2) = 16 * (16 * (r2 - r1))"
    using assms(1) by (simp add: algebra_simps)
  then have "i1 - i2 = 16 * (r2 - r1)"
    by simp
  moreover have "- 15 \<le> i1 - i2" "i1 - i2 \<le> 15"
    using assms(2-5) by linarith+
  ultimately have "r2 - r1 = 0"
    by arith
  then show ?thesis
    using \<open>i1 - i2 = 16 * (r2 - r1)\<close> by simp
qed

text \<open>
  Claim C4. The specification's worked example gives 25665 for nation index 2 and raw
  id 100. The code returns \<open>100 * 256 + 2 * 16 + 1 = 25633\<close>, and so does the formula
  \<open>(raw_id << 8) | (nation_index << 4) | 1\<close> itself: the example adds up wrongly
  (\<open>100 << 8\<close> is 25600, not 25632). The counterexample evaluates the code on a table
  that gives one nation the index 2.
\<close>

theorem get_tank_id_example_counterexample:
  "dict_find (NATION_ID WG_sample) ''usa'' = Some 2
   \<and> get_tank_id (Some WG_sample) ''usa'' 100 \<noteq> Inr 25665
   \<and> encode_id 2 100 \<noteq> 25665"
  by (simp add: get_tank_id_eq dict_find_def encode_id_plus WG_sample_def)

text \<open>
  Claim C4, amended: for every table that gives the nation the index 2, the identifier
  encoder applied to that nation and the raw id 100 returns 25633, which is also the value
  of \<open>(100 << 8) | (2 << 4) | 1\<close>.
\<close>

theorem get_tank_id_example:
  assumes "dict_find (NATION_ID wg) nation = Some 2"
  shows "get_tank_id (Some wg) nation 100 = Inr 25633 \<and> encode_id 2 100 = 25633"
  using assms by (simp add: get_tank_id_eq encode_id_plus)

theorem get_tank_id_example_witness:
  "get_tank_id (Some WG_sample) ''usa'' 100 = Inr 25633 \<and> encode_id 2 100 = 25633"
  using get_tank_id_example [of WG_sample "''usa''"]
  by (simp add: WG_sample_def dict_find_def)

text \<open>
  Claim C7. The identifier encoder is injective: for nation indices between 0 and 15 and
  raw ids that are not negative, two distinct pairs of nation index and raw id get
  distinct identifiers. On this domain the code's result is the value of the
  specification's formula \<open>(raw_id << 8) | (nation_index << 4) | 1\<close>.
\<close>

theorem get_tank_id_injective:
  assumes "dict_find (NATION_ID wg) n1 = Some i1" and "dict_find (NATION_ID wg) n2 = Some i2"
    and "0 \<le> i1" "i1 \<le> 15" "0 \<le> i2" "i2 \<le> 15" "0 \<le> r1" "0 \<le> r2"
    and "(i1, r1) \<noteq> (i2, r2)"
  shows "get_tank_id (Some wg) n1 r1 = Inr (encode_id i1 r1)
       \<and> get_tank_id (Some wg) n2 r2 = Inr (encode_id i2 r2)
       \<and> get_tank_id (Some wg) n1 r1 \<noteq> get_tank_id (Some wg) n2 r2"
proof -
  have "encode_id i1 r1 \<noteq> encode_id i2 r2"
    using assms(3-6,9) pack_inj [of r1 i1 r2 i2] by (auto simp: encode_id_plus)
  then show ?thesis
    using assms(1-6) by (simp add: get_tank_id_eq encode_id_plus)
qed

theorem get_tank_id_injective_witness:
  "get_tank_id (Some WG_sample) ''usa'' 100 = Inr (encode_id 2 100)
   \<and> get_tank_id (Some WG_sample) ''china'' 100 = Inr (encode_id 3 100)
   \<and> get_tank_id (Some WG_sample) ''usa'' 100 \<noteq> get_tank_id (Some WG_sample) ''china'' 100"
  using get_tank_id_injective [of WG_sample "''usa''" 2 "''china''" 3 100 100]
  by (simp add: WG_sample_def dict_find_def encode_id_plus)

section \<open>A nation without a vehicle list\<close>

lemma gather_Inr_set:
  "gather rs = Inr xs \<Longrightarrow> Inr x \<in> set rs \<Longrightarrow> x \<in> set xs"
  by (induction rs arbitrary: xs) (auto split: sum.splits)

lemma extend_all_None:
  "None \<in> set rs \<Longrightarrow> extend_all acc rs = Inl TypeError"
  by (induction rs arbitrary: acc) (auto simp: extend_py_def split: option.splits)

lemma extract_tanks_absent:
  assumes "vehicle_file fs p = None"
    and "p = path_join (if isdir fs (path_join base [''assets''])
                        then path_join base [''assets''] else base)
             [BLITZAPP_VEHICLES_DIR, nation, BLITZAPP_VEHICLE_FILE]"
  shows "extract_tanks wg fs base nation = ([Stdout (''ERROR: cannot open '' @ p)], Inr None)"
  using assms by (simp add: extract_tanks_def Let_def)

text \<open>
  When \<open>extract_tanks\<close> returns \<open>None\<close> for one of the nations, \<open>main\<close> does not get a list
  of records: either a task has ended the run, or \<open>tanklist.extend(None)\<close> raises.
\<close>

lemma extract_tanks_exit:
  assumes "snd (extract_tanks wg fs base nation) = Inl a"
  shows "a = SystemExit 2"
proof -
  define p where "p = path_join (if isdir fs (path_join base [''assets''])
                        then path_join base [''assets''] else base)
             [BLITZAPP_VEHICLES_DIR, nation, BLITZAPP_VEHICLE_FILE]"
  have "extract_tanks wg fs base nation =
     (case vehicle_file fs p of
           None \<Rightarrow> ([Stdout (''ERROR: cannot open '' @ p)], Inr None)
         | Some None \<Rightarrow> ([Error_file p], Inl (SystemExit 2))
         | Some (Some root) \<Rightarrow>
             (case make_tanks wg nation (map snd root) of
                Inl e \<Rightarrow> ([Error_exc e], Inl (SystemExit 2))
              | Inr tanks \<Rightarrow> ([], Inr (Some tanks))))"
    unfolding extract_tanks_def Let_def p_def by (rule refl)
  then show ?thesis
    using assms by (simp split: option.splits sum.splits)
qed

lemma gather_Inl:
  "gather rs = Inl a \<Longrightarrow> Inl a \<in> set rs"
  by (induction rs) (auto split: sum.splits)

lemma main_tanklist_None:
  assumes "nation \<in> set (NATION w)"
    and "snd (extract_tanks (Some w) fs base nation) = Inr None"
  shows "snd (main_tanklist w fs base) = Inl (SystemExit 2)
       \<or> snd (main_tanklist w fs base) = Inl (Uncaught TypeError)"
proof (cases "gather (map snd (map (extract_tanks (Some w) fs base) (NATION w)))")
  case (Inl a)
  then have "Inl a \<in> set (map snd (map (extract_tanks (Some w) fs base) (NATION w)))"
    by (rule gather_Inl)
  then obtain n where "snd (extract_tanks (Some w) fs base n) = Inl a"
    by auto
  then have "a = SystemExit 2"
    by (rule extract_tanks_exit)
  then show ?thesis
    using Inl by (simp add: main_tanklist_def Let_def)
next
  case (Inr results)
  have "Inr None \<in> set (map snd (map (extract_tanks (Some w) fs base) (NATION w)))"
    using assms by force
  then have "None \<in> set results"
    by (rule gather_Inr_set [OF Inr])
  then show ?thesis
    using Inr by (simp add: main_tanklist_def Let_def extend_all_None)
qed

text \<open>
  Claim C2 says that a nation whose vehicle list is absent contributes an empty sequence
  and that the run continues with the records of the other nations. The code reports the
  missing path and then returns \<open>None\<close>, not the empty list it has prepared, and
  \<open>tanklist.extend\<close> in \<open>main\<close> raises \<open>TypeError\<close> on it: the run ends without any
  record, also for the nation whose file is present. The theorem evaluates the code on
  an unpacked game that has the vehicle list of \<open>usa\<close> only.
\<close>

theorem main_tanklist_missing_file:
  "extract_tanks (Some WG_sample) files_sample ''app'' ''ussr''
     = ([Stdout ''ERROR: cannot open app/assets/Data/XML/item_defs/vehicles/ussr/list.xml''],
        Inr None)
   \<and> extract_tanks (Some WG_sample) files_sample ''app'' ''usa''
     = ([], Inr (Some [[(''is_premium'', PyBool True), (''nation'', PyStr ''usa''),
                        (''tank_id'', PyInt 25633), (''tier'', PyInt 5),
                        (''type'', PyStr ''lightTank''),
                        (''userStr'', PyStr ''#usa_vehicles:T34'')]]))
   \<and> snd (main_tanklist WG_sample files_sample ''app'') = Inl (Uncaught TypeError)"
  by code_simp

section \<open>Filtering the vehicle strings\<close>

text \<open>
  What the four patterns exclude: a key that starts with \<open>Chassis_\<close>, with \<open>Turret_\<close> or
  with an underscore. The fourth pattern adds nothing, since \<open>match\<close> looks for \<open>_short\<close>
  at the start of the key, where the third pattern has matched already.
\<close>

lemma skip_iff:
  "list_ex (\<lambda>p. re_match p key) re_strs \<longleftrightarrow>
     strip_prefix ''Chassis_'' key \<noteq> None \<or> strip_prefix ''Turret_'' key \<noteq> None
     \<or> strip_prefix ''_'' key \<noteq> None"
  by (cases key) (auto simp: re_strs_def split: option.splits if_splits)

text \<open>
  Claim C3 says that a short key is excluded from \<open>userStrings\<close> if and only if it begins
  with \<open>Chassis_\<close>, \<open>Turret_\<close> or \<open>_\<close>, or ends with \<open>_short\<close>, so that \<open>Something_short\<close>
  is excluded. The code compiles the pattern \<^verbatim>\<open>_short$\<close> for this, but applies it with
  \<open>match\<close>, which is anchored at the start of the key: keys that end with \<open>_short\<close> are
  kept. The theorem evaluates the code on the five keys of the specification's example:
  \<open>Something_short\<close> is in the result, next to \<open>Foo\<close>.
\<close>

theorem convert_tank_names_keeps_short:
  "snd (snd (convert_tank_names []
     [(''#usa_vehicles:Chassis_Foo'', ''a''), (''#usa_vehicles:Turret_Bar'', ''b''),
      (''#usa_vehicles:_Baz'', ''c''), (''#usa_vehicles:Something_short'', ''d''),
      (''#usa_vehicles:Foo'', ''e'')]))
   = Inr ([], [(''Foo'', ''e''), (''Something_short'', ''d'')])"
  by code_simp

section \<open>Name resolution\<close>

lemma length_split_py: "length (split_py c s) = Suc (length (filter (\<lambda>x. x = c) s))"
  by (induction s) (auto split: list.splits)

lemma split_py_colon:
  "c \<in> set s \<Longrightarrow> index_py (split_py c s) 1 = Inr (split_py c s ! 1)"
  "c \<notin> set s \<Longrightarrow> index_py (split_py c s) 1 = Inl IndexError"
proof -
  show "c \<in> set s \<Longrightarrow> index_py (split_py c s) 1 = Inr (split_py c s ! 1)"
  proof -
    assume "c \<in> set s"
    then have "filter (\<lambda>x. x = c) s \<noteq> []"
      by (auto simp: filter_empty_conv)
    then have "1 < length (split_py c s)"
      by (simp add: length_split_py)
    then show ?thesis
      by (simp add: index_py_def)
  qed
  show "c \<notin> set s \<Longrightarrow> index_py (split_py c s) 1 = Inl IndexError"
  proof -
    assume "c \<notin> set s"
    then have "filter (\<lambda>x. x = c) s = []"
      by (auto simp: filter_empty_conv)
    then show ?thesis
      by (simp add: index_py_def length_split_py)
  qed
qed

lemma dict_find_Nil [simp]: "dict_find [] k = None"
  by (simp add: dict_find_def)

lemma dict_find_fold_rekey:
  "dict_find (fold (\<lambda>key tmp. case dict_find t key of None \<Rightarrow> tmp
                                 | Some v \<Rightarrow> dict_set key v tmp) ks acc) k
     = (if k \<in> set ks \<and> dict_find t k \<noteq> None then dict_find t k else dict_find acc k)"
  by (induction ks arbitrary: acc) (auto simp: dict_find_dict_set split: option.splits)

lemma dict_find_rekey: "dict_find (rekey t) k = dict_find t k"
proof -
  have "dict_find t k = None" if "k \<notin> set (dict_keys t)"
    using that by (simp add: dict_find_None_iff)
  then show ?thesis
    by (auto simp: rekey_def dict_find_fold_rekey)
qed

lemma dict_get_find:
  "dict_get d k = (case dict_find d k of None \<Rightarrow> Inl KeyError | Some v \<Rightarrow> Inr v)"
  by (simp add: dict_get_def dict_find_def)

lemma process_tank_resolved:
  assumes "dict_find tank ''userStr'' = Some u" and "resolve_name tank_strs u = Inr name"
  shows "process_tank tank_strs tank =
           (dict_pop ''userStr'' (dict_set ''name'' (PyStr name) tank),
            case dict_find tank ''tank_id'' of
              None \<Rightarrow> Inl KeyError
            | Some tid \<Rightarrow>
                Inr (str_py tid, rekey (dict_pop ''userStr'' (dict_set ''name'' (PyStr name) tank))))"
  using assms
  by (simp add: process_tank_def dict_get_find Let_def dict_find_dict_pop dict_find_dict_set
      split: option.splits)

lemma process_tank_unresolved:
  assumes "dict_find tank ''userStr'' = Some u" and "resolve_name tank_strs u = Inl e"
  shows "process_tank tank_strs tank = (tank, Inl e)"
  using assms by (simp add: process_tank_def dict_get_find)

lemma process_tank_no_userStr:
  assumes "dict_find tank ''userStr'' = None"
  shows "process_tank tank_strs tank = (tank, Inl KeyError)"
  using assms by (simp add: process_tank_def dict_get_find)

lemma process_tank_Inr:
  assumes "snd (process_tank tank_strs tank) = Inr (key, tank_tmp)"
  obtains u name tid where "dict_find tank ''userStr'' = Some u"
    and "resolve_name tank_strs u = Inr name"
    and "dict_find tank ''tank_id'' = Some tid"
    and "key = str_py tid"
    and "fst (process_tank tank_strs tank) = dict_pop ''userStr'' (dict_set ''name'' (PyStr name) tank)"
    and "tank_tmp = rekey (fst (process_tank tank_strs tank))"
proof (cases "dict_find tank ''userStr''")
  case None
  then show ?thesis
    using assms by (simp add: process_tank_no_userStr)
next
  case (Some u)
  show ?thesis
  proof (cases "resolve_name tank_strs u")
    case (Inl e)
    then show ?thesis
      using assms Some by (simp add: process_tank_unresolved)
  next
    case (Inr name)
    note p = process_tank_resolved [OF Some Inr]
    show ?thesis
    proof (cases "dict_find tank ''tank_id''")
      case None
      then show ?thesis using assms p by simp
    next
      case (Some tid)
      show ?thesis
        using that [OF \<open>dict_find tank ''userStr'' = Some u\<close> Inr Some] assms p Some
        by simp
    qed
  qed
qed

section \<open>The loop over the records\<close>

lemma cs_tanklist_fold:
  "cs_tanklist (fold (convert_step tank_strs) xs st)
     = cs_tanklist st @ map (\<lambda>t. fst (process_tank tank_strs t)) xs"
  by (induction xs arbitrary: st)
    (auto simp: convert_step_def split: prod.splits sum.splits)

lemma cs_tankopedia_fold:
  "cs_tankopedia (fold (convert_step tank_strs) xs st)
     = fold (\<lambda>t tp. case snd (process_tank tank_strs t) of
                       Inl e \<Rightarrow> tp
                     | Inr (key, tank_tmp) \<Rightarrow> dict_set key tank_tmp tp) xs (cs_tankopedia st)"
  by (induction xs arbitrary: st)
    (auto simp: convert_step_def split: prod.splits sum.splits)


lemma fst_convert_tank_names:
  "fst (convert_tank_names tanklist tank_strs) = map (\<lambda>t. fst (process_tank tank_strs t)) tanklist"
  by (simp add: convert_tank_names_def convert_tanks_def Let_def cs_tanklist_fold
      split: sum.splits)




lemma tankopedia_fold_entry:
  assumes "dict_find (fold (\<lambda>t tp. case snd (process_tank tank_strs t) of
                       Inl e \<Rightarrow> tp
                     | Inr (key, tank_tmp) \<Rightarrow> dict_set key tank_tmp tp) xs tp0) k = Some v"
  shows "dict_find tp0 k = Some v \<or> (\<exists>t \<in> set xs. snd (process_tank tank_strs t) = Inr (k, v))"
  using assms
proof (induction xs arbitrary: tp0)
  case Nil
  then show ?case by simp
next
  case (Cons x xs)
  show ?case
  proof (cases "snd (process_tank tank_strs x)")
    case (Inl e)
    then show ?thesis
      using Cons.IH [of tp0] Cons.prems by auto
  next
    case (Inr p)
    obtain key tank_tmp where p: "p = (key, tank_tmp)"
      by (cases p)
    have "dict_find (dict_set key tank_tmp tp0) k = Some v
        \<or> (\<exists>t \<in> set xs. snd (process_tank tank_strs t) = Inr (k, v))"
      using Cons.IH [of "dict_set key tank_tmp tp0"] Cons.prems Inr p by simp
    then show ?thesis
      using Inr p by (auto simp: dict_find_dict_set split: if_splits)
  qed
qed

lemma sort_tankopedia_entry:
  assumes "sort_tankopedia tp = Inr s" and "dict_find s k = Some v"
  shows "dict_find tp k = Some v"
proof -
  obtain ks where "s = fold (\<lambda>tank_id sorted. case dict_find tp tank_id of
                                        None \<Rightarrow> sorted
                                      | Some t \<Rightarrow> dict_set tank_id t sorted) ks []"
    using assms(1) by (auto simp: sort_tankopedia_def split: sum.splits)
  then show ?thesis
    using assms(2) by (simp add: dict_find_fold_rekey split: if_splits)
qed

lemma fold_nth_split:
  assumes "i < length xs"
  shows "fold f xs a = fold f (drop (Suc i) xs) (f (xs ! i) (fold f (take i xs) a))"
proof -
  have "fold f xs a = fold f (take i xs @ xs ! i # drop (Suc i) xs) a"
    by (simp only: id_take_nth_drop [OF assms, symmetric])
  also have "\<dots> = fold f (drop (Suc i) xs) (f (xs ! i) (fold f (take i xs) a))"
    by simp
  finally show ?thesis .
qed

lemma tankopedia_fold_other:
  assumes "\<forall>t \<in> set xs. \<forall>tank_tmp. snd (process_tank tank_strs t) \<noteq> Inr (k, tank_tmp)"
  shows "dict_find (fold (\<lambda>t tp. case snd (process_tank tank_strs t) of
                       Inl e \<Rightarrow> tp
                     | Inr (key, tank_tmp) \<Rightarrow> dict_set key tank_tmp tp) xs tp0) k
       = dict_find tp0 k"
  using assms
proof (induction xs arbitrary: tp0)
  case Nil
  then show ?case by simp
next
  case (Cons x xs)
  show ?case
  proof (cases "snd (process_tank tank_strs x)")
    case (Inl e)
    then show ?thesis
      using Cons by simp
  next
    case (Inr p)
    obtain key tank_tmp where p: "p = (key, tank_tmp)"
      by (cases p)
    have "key \<noteq> k"
      using Cons.prems Inr p by auto
    then show ?thesis
      using Cons Inr p by (simp add: dict_find_dict_set)
  qed
qed

lemma sort_tankopedia_find:
  assumes "sort_tankopedia tp = Inr s"
  shows "dict_find s k = dict_find tp k"
proof -
  obtain ks where ks: "sorted_by int_py (dict_keys tp) = Inr ks"
    and s: "s = fold (\<lambda>tank_id sorted. case dict_find tp tank_id of
                                        None \<Rightarrow> sorted
                                      | Some t \<Rightarrow> dict_set tank_id t sorted) ks []"
    using assms by (auto simp: sort_tankopedia_def split: sum.splits)
  have "set ks = set (dict_keys tp)"
    using sorted_by_Inr(1) [OF ks] by simp
  then have "dict_find tp k = None" if "k \<notin> set ks"
    using that by (simp add: dict_find_None_iff)
  then show ?thesis
    by (auto simp: s dict_find_fold_rekey)
qed

text \<open>
  Claim C5. For a record of the list whose \<open>display_key\<close> (the field \<open>userStr\<close>) is not in
  \<open>vehicleStrings\<close> and contains a colon, name resolution sets the name to the second
  segment of the key split at the colons; when the key is in \<open>vehicleStrings\<close>, the name
  is the matched text. The name is set in the record of the caller's list, and in the
  record that the returned tankopedia holds under the text of the \<open>tank_id\<close>, unless a
  later record of the list has taken that place. The key \<open>#tank_vehicles:T34\<close> without a
  table entry gives \<open>T34\<close>.
\<close>

theorem name_resolution:
  assumes "i < length tanklist"
    and "dict_find (tanklist ! i) ''userStr'' = Some (PyStr display_key)"
    and "dict_find tank_strs display_key \<noteq> None \<or> CHR '':'' \<in> set display_key"
    and "resolved = (case dict_find tank_strs display_key of
                       Some matched \<Rightarrow> matched
                     | None \<Rightarrow> split_py CHR '':'' display_key ! 1)"
  shows "(dict_find tank_strs display_key = None \<longrightarrow> 1 < length (split_py CHR '':'' display_key))
       \<and> resolve_name tank_strs (PyStr display_key) = Inr resolved
       \<and> dict_find (fst (convert_tank_names tanklist tank_strs) ! i) ''name'' = Some (PyStr resolved)
       \<and> (\<forall>tid new_tanks new_userStrs.
             dict_find (tanklist ! i) ''tank_id'' = Some tid \<longrightarrow>
             (\<forall>j tid'. i < j \<and> j < length tanklist \<and> dict_find (tanklist ! j) ''tank_id'' = Some tid'
                        \<longrightarrow> str_py tid' \<noteq> str_py tid) \<longrightarrow>
             snd (snd (convert_tank_names tanklist tank_strs)) = Inr (new_tanks, new_userStrs) \<longrightarrow>
             (\<exists>tank_tmp. dict_find new_tanks (str_py tid) = Some tank_tmp
                        \<and> dict_find tank_tmp ''name'' = Some (PyStr resolved)))
       \<and> (dict_find tank_strs ''#tank_vehicles:T34'' = None \<longrightarrow>
             resolve_name tank_strs (PyStr ''#tank_vehicles:T34'') = Inr ''T34'')"
proof (intro conjI allI impI)
  let ?F = "\<lambda>t tp. case snd (process_tank tank_strs t) of
                       Inl e \<Rightarrow> tp
                     | Inr (key, tank_tmp) \<Rightarrow> dict_set key tank_tmp tp"
  show "1 < length (split_py CHR '':'' display_key)" if "dict_find tank_strs display_key = None"
  proof -
    have "filter (\<lambda>x. x = CHR '':'') display_key \<noteq> []"
      using that assms(3) by (auto simp: filter_empty_conv)
    then show ?thesis
      by (simp add: length_split_py)
  qed
  show r: "resolve_name tank_strs (PyStr display_key) = Inr resolved"
  proof (cases "dict_find tank_strs display_key")
    case None
    then show ?thesis
      using assms(3,4) split_py_colon(1) [of "CHR '':''" display_key]
      by (simp add: resolve_name_def)
  next
    case (Some matched)
    then show ?thesis
      using assms(4) by (simp add: resolve_name_def)
  qed
  note p = process_tank_resolved [OF assms(2) r]
  have n: "fst (convert_tank_names tanklist tank_strs) ! i
        = fst (process_tank tank_strs (tanklist ! i))"
    using assms(1) by (simp add: fst_convert_tank_names)
  show "dict_find (fst (convert_tank_names tanklist tank_strs) ! i) ''name'' = Some (PyStr resolved)"
    by (simp add: n p dict_find_dict_pop dict_find_dict_set)
  show "resolve_name tank_strs (PyStr ''#tank_vehicles:T34'') = Inr ''T34''"
    if "dict_find tank_strs ''#tank_vehicles:T34'' = None"
    using that by (simp add: resolve_name_def index_py_def)
  fix tid new_tanks new_userStrs
  assume tid: "dict_find (tanklist ! i) ''tank_id'' = Some tid"
    and later: "\<forall>j tid'. i < j \<and> j < length tanklist \<and> dict_find (tanklist ! j) ''tank_id'' = Some tid'
                        \<longrightarrow> str_py tid' \<noteq> str_py tid"
    and res: "snd (snd (convert_tank_names tanklist tank_strs)) = Inr (new_tanks, new_userStrs)"
  define tank_tmp where "tank_tmp = rekey (fst (process_tank tank_strs (tanklist ! i)))"
  have e: "snd (process_tank tank_strs (tanklist ! i)) = Inr (str_py tid, tank_tmp)"
    by (simp add: p tid tank_tmp_def)
  have post: "\<forall>t \<in> set (drop (Suc i) tanklist). \<forall>tmp.
      snd (process_tank tank_strs t) \<noteq> Inr (str_py tid, tmp)"
  proof (intro ballI allI notI)
    fix t tmp
    assume t: "t \<in> set (drop (Suc i) tanklist)"
      and c: "snd (process_tank tank_strs t) = Inr (str_py tid, tmp)"
    from t obtain m where m: "m < length (drop (Suc i) tanklist)" "t = drop (Suc i) tanklist ! m"
      by (auto simp: in_set_conv_nth)
    then have j: "i < Suc i + m" "Suc i + m < length tanklist" "t = tanklist ! (Suc i + m)"
      by simp_all
    from c obtain tid' where t': "dict_find t ''tank_id'' = Some tid'" "str_py tid = str_py tid'"
      by (rule process_tank_Inr)
    have "str_py tid' \<noteq> str_py tid"
      using later [rule_format, of "Suc i + m" tid'] j t'(1) by simp
    then show False
      using t'(2) by simp
  qed
  have "fold ?F tanklist [] = fold ?F (drop (Suc i) tanklist)
                 (?F (tanklist ! i) (fold ?F (take i tanklist) []))"
    using assms(1) by (rule fold_nth_split)
  then have "dict_find (fold ?F tanklist []) (str_py tid) = Some tank_tmp"
    using tankopedia_fold_other [OF post] by (simp add: e dict_find_dict_set)
  moreover have "sort_tankopedia (cs_tankopedia (convert_tanks tank_strs tanklist)) = Inr new_tanks"
    using res by (auto simp: convert_tank_names_def Let_def split: sum.splits)
  ultimately have "dict_find new_tanks (str_py tid) = Some tank_tmp"
    by (simp add: sort_tankopedia_find convert_tanks_def cs_tankopedia_fold)
  moreover have "dict_find tank_tmp ''name'' = Some (PyStr resolved)"
    by (simp add: tank_tmp_def dict_find_rekey p dict_find_dict_pop dict_find_dict_set)
  ultimately show "\<exists>tank_tmp. dict_find new_tanks (str_py tid) = Some tank_tmp
                        \<and> dict_find tank_tmp ''name'' = Some (PyStr resolved)"
    by blast
qed

theorem name_resolution_witness:
  "0 < length [tank_sample, tank_nocolon]
   \<and> dict_find ([tank_sample, tank_nocolon] ! 0) ''userStr'' = Some (PyStr ''#usa_vehicles:T34'')
   \<and> dict_find [] ''#usa_vehicles:T34'' = (None :: string option)
   \<and> CHR '':'' \<in> set ''#usa_vehicles:T34''
   \<and> split_py CHR '':'' ''#usa_vehicles:T34'' ! 1 = ''T34''
   \<and> dict_find (fst (convert_tank_names [tank_sample, tank_nocolon] []) ! 0) ''name''
       = Some (PyStr ''T34'')
   \<and> dict_find [(''#usa_vehicles:T34'', ''T-34'')] ''#usa_vehicles:T34'' = Some ''T-34''
   \<and> dict_find (fst (convert_tank_names [tank_sample, tank_nocolon]
                        [(''#usa_vehicles:T34'', ''T-34'')]) ! 0) ''name''
       = Some (PyStr ''T-34'')"
proof -
  have i: "0 < length [tank_sample, tank_nocolon]"
    by simp
  have u: "dict_find ([tank_sample, tank_nocolon] ! 0) ''userStr''
      = Some (PyStr ''#usa_vehicles:T34'')"
    by (simp add: tank_sample_def dict_find_def)
  have c: "CHR '':'' \<in> set ''#usa_vehicles:T34''"
    by simp
  have s: "split_py CHR '':'' ''#usa_vehicles:T34'' ! 1 = ''T34''"
    by simp
  have a: "''T34'' = (case dict_find [] ''#usa_vehicles:T34'' of
                       Some matched \<Rightarrow> matched
                     | None \<Rightarrow> split_py CHR '':'' ''#usa_vehicles:T34'' ! 1)"
    by (simp add: dict_find_def)
  have b: "''T-34'' = (case dict_find [(''#usa_vehicles:T34'', ''T-34'')] ''#usa_vehicles:T34'' of
                       Some matched \<Rightarrow> matched
                     | None \<Rightarrow> split_py CHR '':'' ''#usa_vehicles:T34'' ! 1)"
    by (simp add: dict_find_def)
  note w1 = name_resolution [OF i u _ a, THEN conjunct2, THEN conjunct2, THEN conjunct1]
  note w2 = name_resolution [OF i u _ b, THEN conjunct2, THEN conjunct2, THEN conjunct1]
  have "dict_find (fst (convert_tank_names [tank_sample, tank_nocolon] []) ! 0) ''name''
       = Some (PyStr ''T34'')"
    using c by (intro w1) simp
  moreover have "dict_find (fst (convert_tank_names [tank_sample, tank_nocolon]
                        [(''#usa_vehicles:T34'', ''T-34'')]) ! 0) ''name''
       = Some (PyStr ''T-34'')"
    using c by (intro w2) simp
  ultimately show ?thesis
    using i u c s by (simp add: dict_find_def)
qed



text \<open>
  Claim C10. \<open>convert_tank_names\<close> changes the records of the caller's list in place.
  The records of the list are separate objects, as \<open>extract_tanks\<close> builds them, so the
  list after the call is the list of the records as the loop body leaves them. Every
  record for which the body runs to its end had the key \<open>userStr\<close> and has lost it, has
  a \<open>name\<close>, and is unchanged at every other key; the tankopedia gets a copy of it with
  the keys inserted anew (\<open>tank_tmp\<close>), and every record of the returned tankopedia is such
  a copy.
\<close>

theorem convert_tank_names_in_place:
  "fst (convert_tank_names tanklist tank_strs) = map (\<lambda>t. fst (process_tank tank_strs t)) tanklist
   \<and> (\<forall>i < length tanklist. \<forall>key tank_tmp.
        snd (process_tank tank_strs (tanklist ! i)) = Inr (key, tank_tmp) \<longrightarrow>
          dict_find (tanklist ! i) ''userStr'' \<noteq> None
        \<and> dict_find (fst (convert_tank_names tanklist tank_strs) ! i) ''userStr'' = None
        \<and> (\<exists>name. dict_find (fst (convert_tank_names tanklist tank_strs) ! i) ''name''
                     = Some (PyStr name))
        \<and> (\<forall>k. k \<noteq> ''userStr'' \<and> k \<noteq> ''name'' \<longrightarrow>
              dict_find (fst (convert_tank_names tanklist tank_strs) ! i) k
                = dict_find (tanklist ! i) k)
        \<and> tank_tmp = rekey (fst (convert_tank_names tanklist tank_strs) ! i)
        \<and> (\<forall>k. dict_find tank_tmp k
                  = dict_find (fst (convert_tank_names tanklist tank_strs) ! i) k))
   \<and> (\<forall>new_tanks new_userStrs key tank_tmp.
        snd (snd (convert_tank_names tanklist tank_strs)) = Inr (new_tanks, new_userStrs) \<longrightarrow>
        dict_find new_tanks key = Some tank_tmp \<longrightarrow>
          (\<exists>t \<in> set tanklist. snd (process_tank tank_strs t) = Inr (key, tank_tmp)))"
proof (intro conjI allI impI)
  show l: "fst (convert_tank_names tanklist tank_strs)
      = map (\<lambda>t. fst (process_tank tank_strs t)) tanklist"
    by (rule fst_convert_tank_names)
  {
    fix i key tank_tmp
    assume i: "i < length tanklist"
      and r: "snd (process_tank tank_strs (tanklist ! i)) = Inr (key, tank_tmp)"
    have n: "fst (convert_tank_names tanklist tank_strs) ! i
        = fst (process_tank tank_strs (tanklist ! i))"
      using i by (simp add: l)
    from r obtain u name tid where u: "dict_find (tanklist ! i) ''userStr'' = Some u"
      and f: "fst (process_tank tank_strs (tanklist ! i))
           = dict_pop ''userStr'' (dict_set ''name'' (PyStr name) (tanklist ! i))"
      and c: "tank_tmp = rekey (fst (process_tank tank_strs (tanklist ! i)))"
      by (rule process_tank_Inr)
    show "dict_find (tanklist ! i) ''userStr'' \<noteq> None"
      using u by simp
    show "dict_find (fst (convert_tank_names tanklist tank_strs) ! i) ''userStr'' = None"
      by (simp add: n f dict_find_dict_pop)
    show "\<exists>name. dict_find (fst (convert_tank_names tanklist tank_strs) ! i) ''name''
                     = Some (PyStr name)"
      by (simp add: n f dict_find_dict_pop dict_find_dict_set)
    show "tank_tmp = rekey (fst (convert_tank_names tanklist tank_strs) ! i)"
      by (simp add: n c)
    show "dict_find tank_tmp k = dict_find (fst (convert_tank_names tanklist tank_strs) ! i) k" for k
      by (simp add: n c dict_find_rekey)
    show "dict_find (fst (convert_tank_names tanklist tank_strs) ! i) k
                = dict_find (tanklist ! i) k" if "k \<noteq> ''userStr'' \<and> k \<noteq> ''name''" for k
      using that by (simp add: n f dict_find_dict_pop dict_find_dict_set)
  }
  fix new_tanks new_userStrs key tank_tmp
  assume res: "snd (snd (convert_tank_names tanklist tank_strs)) = Inr (new_tanks, new_userStrs)"
    and k: "dict_find new_tanks key = Some tank_tmp"
  have "sort_tankopedia (cs_tankopedia (convert_tanks tank_strs tanklist)) = Inr new_tanks"
    using res by (auto simp: convert_tank_names_def Let_def split: sum.splits)
  then have "dict_find (cs_tankopedia (convert_tanks tank_strs tanklist)) key = Some tank_tmp"
    using k by (rule sort_tankopedia_entry)
  then show "\<exists>t \<in> set tanklist. snd (process_tank tank_strs t) = Inr (key, tank_tmp)"
    using tankopedia_fold_entry [of tank_strs tanklist "[]" key tank_tmp]
    by (simp add: convert_tanks_def cs_tankopedia_fold)
qed

theorem convert_tank_names_in_place_witness:
  "0 < length [tank_sample, tank_nocolon]
   \<and> snd (process_tank [] ([tank_sample, tank_nocolon] ! 0))
       = Inr (''25633'', rekey (fst (process_tank [] tank_sample)))
   \<and> dict_find ([tank_sample, tank_nocolon] ! 0) ''userStr'' \<noteq> None
   \<and> dict_find (fst (convert_tank_names [tank_sample, tank_nocolon] []) ! 0) ''userStr'' = None
   \<and> (\<exists>name. dict_find (fst (convert_tank_names [tank_sample, tank_nocolon] []) ! 0) ''name''
               = Some (PyStr name))"
proof -
  have u: "dict_find tank_sample ''userStr'' = Some (PyStr ''#usa_vehicles:T34'')"
    by (simp add: tank_sample_def dict_find_def)
  have r: "resolve_name [] (PyStr ''#usa_vehicles:T34'') = Inr ''T34''"
    by (simp add: resolve_name_def index_py_def)
  have t: "dict_find tank_sample ''tank_id'' = Some (PyInt 25633)"
    by (simp add: tank_sample_def dict_find_def)
  have s: "str_int 25633 = ''25633''"
    by (simp add: str_int_def str_nat.simps digit_chars)
  have i: "0 < length [tank_sample, tank_nocolon]"
    by simp
  have p: "snd (process_tank [] ([tank_sample, tank_nocolon] ! 0))
      = Inr (''25633'', rekey (fst (process_tank [] tank_sample)))"
    by (simp add: process_tank_resolved [OF u r] t s)
  note w = convert_tank_names_in_place [of "[tank_sample, tank_nocolon]" "[]",
      THEN conjunct2, THEN conjunct1, rule_format, OF i p]
  show ?thesis
    using i p w by blast
qed

section \<open>The string tables\<close>

lemma values_dict_set: "snd ` set (dict_set k v d) \<subseteq> insert v (snd ` set d)"
  by (induction d) auto

lemma values_dict_update: "snd ` set (dict_update d new) \<subseteq> snd ` set d \<union> snd ` set new"
proof (induction new arbitrary: d)
  case Nil
  then show ?case by simp
next
  case (Cons p new)
  show ?case
    using Cons.IH [of "dict_set (fst p) (snd p) d"] values_dict_set [of "fst p" "snd p" d]
    by auto
qed

lemma read_line_invariant:
  assumes "is_dict (fst strs)" "is_dict (snd strs)" "''Macragge'' \<notin> snd ` set (snd strs)"
  shows "is_dict (fst (read_line l strs)) \<and> is_dict (snd (read_line l strs))
       \<and> ''Macragge'' \<notin> snd ` set (snd (read_line l strs))"
proof -
  note v = values_dict_set
  have "''Macragge'' \<notin> snd ` set (dict_set k v (snd strs))" if "v \<noteq> ''Macragge''" for k v
    using v [of k v "snd strs"] assms(3) that by auto
  then show ?thesis
    using assms(1,2,3)
    by (auto simp: read_line_def Let_def is_dict_dict_set split: option.splits prod.splits)
qed

lemma fold_read_line_invariant:
  assumes "is_dict (fst strs)" "is_dict (snd strs)" "''Macragge'' \<notin> snd ` set (snd strs)"
  shows "is_dict (fst (fold read_line ls strs)) \<and> is_dict (snd (fold read_line ls strs))
       \<and> ''Macragge'' \<notin> snd ` set (snd (fold read_line ls strs))"
  using assms
proof (induction ls arbitrary: strs)
  case Nil
  then show ?case by simp
next
  case (Cons l ls)
  show ?case
    using Cons.IH [of "read_line l strs"] read_line_invariant [OF Cons.prems, of l] by simp
qed

lemma read_user_strs_Inr:
  assumes "snd (read_user_strs fs base) = Inr (tank_strs, map_strs)"
  shows "is_dict tank_strs" and "is_dict map_strs" and "''Macragge'' \<notin> snd ` set map_strs"
proof -
  obtain ls where "fold read_line ls ([], []) = (tank_strs, map_strs)"
    using assms by (auto simp: read_user_strs_def Let_def split: option.splits)
  moreover have "is_dict (fst (fold read_line ls ([], []))) \<and> is_dict (snd (fold read_line ls ([], [])))
       \<and> ''Macragge'' \<notin> snd ` set (snd (fold read_line ls ([], [])))"
    by (rule fold_read_line_invariant) (simp_all add: is_dict_def)
  ultimately show "is_dict tank_strs" and "is_dict map_strs"
    and "''Macragge'' \<notin> snd ` set map_strs"
    by (metis fst_conv, metis snd_conv, metis snd_conv)
qed

lemma main_extract_Inr:
  assumes "main_extract inp = Inr (tanklist, tank_strs, map_strs)"
  shows "snd (main_tanklist (in_wg inp) (in_files inp) (in_base inp)) = Inr tanklist"
    and "snd (read_user_strs (in_files inp) (in_base inp)) = Inr (tank_strs, map_strs)"
  using assms by (auto simp: main_extract_def split: sum.splits prod.splits)

lemma main_complete:
  assumes "main inp = \<lparr> tanks_file = Written out, maps_file = Written maps, run_end = None \<rparr>"
  obtains tanklist tank_strs map_strs reports userStrs tanks new_tanks new_userStrs prior_maps
  where "main_extract inp = Inr (tanklist, tank_strs, map_strs)"
    and "load_tankopedia (in_tanks_file inp) = (reports, Dict userStrs, Dict tanks)"
    and "snd (snd (convert_tank_names tanklist tank_strs)) = Inr (new_tanks, new_userStrs)"
    and "sort_dict (dict_update tanks new_tanks) True = Inr (out_data out)"
    and "out_userStr out = sort_key fst (dict_update userStrs new_userStrs)"
    and "out_count out = length (dict_update tanks new_tanks)"
    and "snd (load_maps (in_maps_file inp)) = Dict prior_maps"
    and "maps = sort_key fst (dict_update prior_maps map_strs)"
proof -
  from assms obtain tanklist tank_strs map_strs
    where e: "main_extract inp = Inr (tanklist, tank_strs, map_strs)"
    by (cases "main_extract inp") (auto simp: main_def)
  obtain reports lu lt where l: "load_tankopedia (in_tanks_file inp) = (reports, lu, lt)"
    by (cases "load_tankopedia (in_tanks_file inp)") auto
  from assms e l obtain new_tanks new_userStrs
    where c: "snd (snd (convert_tank_names tanklist tank_strs)) = Inr (new_tanks, new_userStrs)"
    by (cases "snd (snd (convert_tank_names tanklist tank_strs))") (auto simp: main_def)
  from assms e l c have m: "merge_tankopedia lt lu new_tanks new_userStrs = Inr out"
    by (cases "merge_tankopedia lt lu new_tanks new_userStrs")
      (auto simp: main_def split: sum.splits)
  from assms e l c m obtain um
    where u: "update_py (snd (load_maps (in_maps_file inp))) map_strs = Inr um"
      and w: "maps = dumps_sort_keys um"
    by (cases "update_py (snd (load_maps (in_maps_file inp))) map_strs") (auto simp: main_def)
  from u obtain prior_maps where pm: "snd (load_maps (in_maps_file inp)) = Dict prior_maps"
    and um: "um = dict_update prior_maps map_strs"
    by (cases "snd (load_maps (in_maps_file inp))") (auto simp: update_py_def)
  from m obtain tanks userStrs where lt: "lt = Dict tanks" and lu: "lu = Dict userStrs"
    by (cases lt; cases lu) (auto simp: merge_tankopedia_def update_py_def)
  from m have "sort_dict (dict_update tanks new_tanks) True = Inr (out_data out)"
    and "out_userStr out = sort_key fst (dict_update userStrs new_userStrs)"
    and "out_count out = length (dict_update tanks new_tanks)"
    by (auto simp: merge_tankopedia_def update_py_def lt lu sort_dict_def split: sum.splits)
  then show ?thesis
    using that [OF e l [unfolded lt lu] c _ _ _ pm] w um by (simp add: dumps_sort_keys_def)
qed

section \<open>A run on the sample files\<close>

lemma main_extract_sample:
  "main_extract (run_sample prior prior_maps)
     = Inr ([tank_sample], [(''#usa_vehicles:M4'', ''Sherman'')], [(''desert'', ''Desert Sands'')])"
proof -
  have "snd (main_tanklist (WG_sample \<lparr> NATION := [''usa''] \<rparr>) files_sample ''app'')
      = Inr [tank_sample]"
    by code_simp
  moreover have "snd (read_user_strs files_sample ''app'')
      = Inr ([(''#usa_vehicles:M4'', ''Sherman'')], [(''desert'', ''Desert Sands'')])"
    by code_simp
  ultimately show ?thesis
    by (simp add: main_extract_def run_sample_def)
qed

lemma str_int_sample: "str_int 25633 = ''25633''"
  by (simp add: str_int_def str_nat.simps digit_chars)

lemma int_py_sample: "int_py ''25633'' = Inr 25633"
  using int_py_str_int [of 25633] by (simp add: str_int_sample)

lemma convert_sample:
  "snd (snd (convert_tank_names [tank_sample] [(''#usa_vehicles:M4'', ''Sherman'')]))
     = Inr ([(''25633'', record_sample)], [(''M4'', ''Sherman'')])"
  by (simp add: convert_tank_names_def convert_tanks_def convert_step_def process_tank_def
       tank_sample_def dict_get_def resolve_name_def dict_find_def index_py_def dict_pop_def
       rekey_def dict_keys_def str_int_sample int_py_sample Let_def user_str_step_def re_strs_def
       at_dollar_def sort_tankopedia_def sorted_by_def sort_userStrs_def record_sample_def)

lemma main_run_sample:
  "main (run_sample prior prior_maps)
     = (case merge_tankopedia (snd (snd (load_tankopedia prior))) (fst (snd (load_tankopedia prior)))
               [(''25633'', record_sample)] [(''M4'', ''Sherman'')] of
          Inl e \<Rightarrow> \<lparr> tanks_file = Emptied, maps_file = Untouched, run_end = Some (Uncaught e) \<rparr>
        | Inr tankopedia \<Rightarrow>
            (case update_py (snd (load_maps prior_maps)) [(''desert'', ''Desert Sands'')] of
               Inl e \<Rightarrow> \<lparr> tanks_file = Written tankopedia, maps_file = Untouched,
                          run_end = Some (Uncaught e) \<rparr>
             | Inr maps \<Rightarrow> \<lparr> tanks_file = Written tankopedia,
                             maps_file = Written (dumps_sort_keys maps), run_end = None \<rparr>))"
proof -
  have m: "in_maps_file (run_sample prior prior_maps) = prior_maps"
    and t: "in_tanks_file (run_sample prior prior_maps) = prior"
    by (simp_all add: run_sample_def)
  show ?thesis
    by (simp add: main_def main_extract_sample convert_sample m t split: prod.splits sum.splits)
qed

lemma main_run_sample_Absent:
  "main (run_sample Absent Absent)
     = \<lparr> tanks_file = Written \<lparr> out_status = ''ok'', out_count = 1,
              out_data = [(''25633'', record_sample)], out_userStr = [(''M4'', ''Sherman'')] \<rparr>,
         maps_file = Written [(''desert'', ''Desert Sands'')], run_end = None \<rparr>"
  by (simp add: main_run_sample load_tankopedia_def merge_tankopedia_def update_py_def
      sort_dict_def sorted_by_def int_py_sample load_maps_def dumps_sort_keys_def)

section \<open>The excluded map name\<close>

text \<open>
  Claim C8. No entry of the map-string table that \<open>read_user_strs\<close> produces has the
  value \<open>Macragge\<close>, whatever the strings file holds: a line of the map pattern whose text
  is exactly \<open>Macragge\<close> is not stored. In a run without an earlier maps file, the maps
  file that \<open>main\<close> writes has no entry with this value either.
\<close>

theorem no_Macragge:
  "(\<forall>tank_strs map_strs. snd (read_user_strs fs base) = Inr (tank_strs, map_strs) \<longrightarrow>
       ''Macragge'' \<notin> snd ` set map_strs)
   \<and> (\<forall>out maps. in_maps_file inp = Absent \<longrightarrow>
         main inp = \<lparr> tanks_file = Written out, maps_file = Written maps, run_end = None \<rparr> \<longrightarrow>
         ''Macragge'' \<notin> snd ` set maps)"
proof (intro conjI allI impI)
  fix tank_strs map_strs
  assume "snd (read_user_strs fs base) = Inr (tank_strs, map_strs)"
  then show "''Macragge'' \<notin> snd ` set map_strs"
    by (rule read_user_strs_Inr(3))
next
  fix out maps
  assume a: "in_maps_file inp = Absent"
    and m: "main inp = \<lparr> tanks_file = Written out, maps_file = Written maps, run_end = None \<rparr>"
  from m obtain tanklist tank_strs map_strs prior_maps
    where e: "main_extract inp = Inr (tanklist, tank_strs, map_strs)"
      and p: "snd (load_maps (in_maps_file inp)) = Dict prior_maps"
      and w: "maps = sort_key fst (dict_update prior_maps map_strs)"
    by (rule main_complete)
  have "prior_maps = []"
    using a p by (simp add: load_maps_def)
  then have "snd ` set maps \<subseteq> snd ` set map_strs"
    using values_dict_update [of "[]" map_strs] by (simp add: w)
  then show "''Macragge'' \<notin> snd ` set maps"
    using read_user_strs_Inr(3) [OF main_extract_Inr(2) [OF e]] by auto
qed

theorem no_Macragge_witness:
  "snd (read_user_strs files_sample ''app'')
     = Inr ([(''#usa_vehicles:M4'', ''Sherman'')], [(''desert'', ''Desert Sands'')])
   \<and> p_map_match (lines_sample ! 1) = Some (''holland'', ''Macragge'')
   \<and> ''Macragge'' \<notin> snd ` set [(''desert'', ''Desert Sands'')]
   \<and> in_maps_file (run_sample Absent Absent) = Absent
   \<and> maps_file (main (run_sample Absent Absent)) = Written [(''desert'', ''Desert Sands'')]"
proof -
  have r: "snd (read_user_strs files_sample ''app'')
     = Inr ([(''#usa_vehicles:M4'', ''Sherman'')], [(''desert'', ''Desert Sands'')])"
    by code_simp
  have p: "p_map_match (lines_sample ! 1) = Some (''holland'', ''Macragge'')"
    by code_simp
  have a: "in_maps_file (run_sample Absent Absent) = Absent"
    by (simp add: run_sample_def)
  show ?thesis
    using no_Macragge [of files_sample "''app''" "run_sample Absent Absent"] r p a main_run_sample_Absent
    by simp
qed

section \<open>Merging the catalogs\<close>

lemma is_dict_fold_store:
  "is_dict acc \<Longrightarrow>
     is_dict (fold (\<lambda>k s. case dict_find d k of None \<Rightarrow> s | Some v \<Rightarrow> dict_set k v s) ks acc)"
  by (induction ks arbitrary: acc) (auto simp: is_dict_dict_set split: option.splits)

lemma is_dict_Nil [simp]: "is_dict []"
  by (simp add: is_dict_def)

lemma convert_tank_names_dicts:
  assumes "snd (snd (convert_tank_names tanklist tank_strs)) = Inr (new_tanks, new_userStrs)"
  shows "is_dict new_tanks" and "is_dict new_userStrs"
proof -
  have "sort_tankopedia (cs_tankopedia (convert_tanks tank_strs tanklist)) = Inr new_tanks"
    using assms by (auto simp: convert_tank_names_def Let_def split: sum.splits)
  then show "is_dict new_tanks"
    by (auto simp: sort_tankopedia_def is_dict_fold_store split: sum.splits)
  have "\<exists>u. new_userStrs = sort_userStrs u"
    using assms by (auto simp: convert_tank_names_def Let_def split: sum.splits)
  then show "is_dict new_userStrs"
    by (auto simp: sort_userStrs_def is_dict_fold_store)
qed

lemma overlay_dict_update:
  assumes "is_dict new"
  shows "overlay prior new (dict_update prior new)"
proof -
  have "dict_find (dict_update prior new) k = dict_find new k" if kin: "k \<in> set (dict_keys new)" for k
  proof -
    obtain v where "dict_find new k = Some v"
      using kin by (cases "dict_find new k") (simp_all add: dict_find_None_iff)
    then show ?thesis
      using assms by (simp add: dict_find_dict_update_in)
  qed
  then show ?thesis
    by (simp add: overlay_def keys_dict_update dict_find_dict_update_notin)
qed

lemma overlay_sort_key:
  assumes "is_dict merged" and "overlay prior new merged"
  shows "overlay prior new (sort_key g merged)"
  using assms by (simp add: overlay_def keys_sort_key dict_find_sort_key)

lemma sort_dict_number:
  assumes "sort_dict d True = Inr s"
  shows "s = sort_key (\<lambda>item. projr (int_py (fst item))) d"
    and "\<forall>item \<in> set d. int_py (fst item) = Inr (projr (int_py (fst item)))"
  using sorted_by_Inr [of "\<lambda>item. int_py (fst item)" d s] assms
  by (simp_all add: sort_dict_def)

text \<open>
  Claim C1. The catalog merge is a shallow key-wise overlay. \<open>main\<close> merges with
  \<open>tanks.update(new_tanks)\<close>, \<open>userStrs.update(new_userStrs)\<close> and \<open>maps.update(map_strs)\<close>:
  in a run that writes both files, the data and the user strings of the tankopedia and
  the maps that are written have the keys of the prior map and of the new data, each
  key of the new data with the new value, and each key of the prior map only with its
  old value. The same holds of the operation for every prior and every new map, and for
  the prior map \<open>{"1": A, "2": B}\<close> and the new data \<open>{"2": B2, "3": C}\<close> the result is
  \<open>{"1": A, "2": B2, "3": C}\<close>.
\<close>

theorem main_merge_overlay:
  assumes "main inp = \<lparr> tanks_file = Written out, maps_file = Written maps, run_end = None \<rparr>"
    and "main_extract inp = Inr (tanklist, tank_strs, map_strs)"
    and "snd (snd (convert_tank_names tanklist tank_strs)) = Inr (new_tanks, new_userStrs)"
    and "snd (load_tankopedia (in_tanks_file inp)) = (Dict userStrs, Dict tanks)"
    and "snd (load_maps (in_maps_file inp)) = Dict prior_maps"
    and "is_dict userStrs" and "is_dict tanks" and "is_dict prior_maps"
  shows "overlay tanks new_tanks (out_data out)
       \<and> overlay userStrs new_userStrs (out_userStr out)
       \<and> overlay prior_maps map_strs maps
       \<and> (is_dict new \<longrightarrow> overlay prior new (dict_update prior new))
       \<and> dict_update [(''1'', A), (''2'', B)] [(''2'', B2), (''3'', C)]
           = [(''1'', A), (''2'', B2), (''3'', C)]"
proof -
  from assms(1) obtain tanklist' tank_strs' map_strs' reports userStrs' tanks' new_tanks'
      new_userStrs' prior_maps'
    where e: "main_extract inp = Inr (tanklist', tank_strs', map_strs')"
      and l: "load_tankopedia (in_tanks_file inp) = (reports, Dict userStrs', Dict tanks')"
      and c: "snd (snd (convert_tank_names tanklist' tank_strs')) = Inr (new_tanks', new_userStrs')"
      and d: "sort_dict (dict_update tanks' new_tanks') True = Inr (out_data out)"
      and u: "out_userStr out = sort_key fst (dict_update userStrs' new_userStrs')"
      and p: "snd (load_maps (in_maps_file inp)) = Dict prior_maps'"
      and m: "maps = sort_key fst (dict_update prior_maps' map_strs')"
    by (rule main_complete)
  have eq: "tanklist' = tanklist" "tank_strs' = tank_strs" "map_strs' = map_strs"
    "userStrs' = userStrs" "tanks' = tanks" "prior_maps' = prior_maps"
    "new_tanks' = new_tanks" "new_userStrs' = new_userStrs"
    using e l c p assms(2-5) by simp_all
  note nd = convert_tank_names_dicts [OF assms(3)]
  have md: "is_dict map_strs"
    using read_user_strs_Inr(2) [OF main_extract_Inr(2) [OF assms(2)]] .
  have g: "out_data out = sort_key (\<lambda>item. projr (int_py (fst item))) (dict_update tanks new_tanks)"
    using sort_dict_number(1) [OF d] eq by simp
  have "overlay tanks new_tanks (out_data out)"
    unfolding g using assms(7) nd(1)
    by (intro overlay_sort_key is_dict_dict_update overlay_dict_update)
  moreover have "overlay userStrs new_userStrs (out_userStr out)"
    unfolding u eq using assms(6) nd(2)
    by (intro overlay_sort_key is_dict_dict_update overlay_dict_update)
  moreover have "overlay prior_maps map_strs maps"
    unfolding m eq using assms(8) md
    by (intro overlay_sort_key is_dict_dict_update overlay_dict_update)
  ultimately show ?thesis
    by (simp add: overlay_dict_update)
qed

lemma int_py_7: "int_py ''7'' = Inr 7"
  by (simp add: int_py_def strip_py_def is_space_def is_digit_def)

lemma main_run_sample_prior:
  "main (run_sample prior_sample maps_sample)
     = \<lparr> tanks_file = Written \<lparr> out_status = ''ok'', out_count = 2,
              out_data = [(''7'', []), (''25633'', record_sample)],
              out_userStr = [(''A'', ''a''), (''M4'', ''Sherman'')] \<rparr>,
         maps_file = Written [(''desert'', ''Desert Sands''), (''rock'', ''Rockfield'')],
         run_end = None \<rparr>"
  by (simp add: main_run_sample prior_sample_def maps_sample_def load_tankopedia_def
      entry_value_def merge_tankopedia_def update_py_def sort_dict_def sorted_by_def
      int_py_sample int_py_7 load_maps_def dumps_sort_keys_def)

theorem main_merge_overlay_witness:
  "main (run_sample prior_sample maps_sample)
     = \<lparr> tanks_file = Written \<lparr> out_status = ''ok'', out_count = 2,
              out_data = [(''7'', []), (''25633'', record_sample)],
              out_userStr = [(''A'', ''a''), (''M4'', ''Sherman'')] \<rparr>,
         maps_file = Written [(''desert'', ''Desert Sands''), (''rock'', ''Rockfield'')],
         run_end = None \<rparr>
   \<and> main_extract (run_sample prior_sample maps_sample)
     = Inr ([tank_sample], [(''#usa_vehicles:M4'', ''Sherman'')], [(''desert'', ''Desert Sands'')])
   \<and> snd (snd (convert_tank_names [tank_sample] [(''#usa_vehicles:M4'', ''Sherman'')]))
     = Inr ([(''25633'', record_sample)], [(''M4'', ''Sherman'')])
   \<and> snd (load_tankopedia (in_tanks_file (run_sample prior_sample maps_sample)))
     = (Dict [(''M4'', ''Pershing''), (''A'', ''a'')], Dict [(''25633'', []), (''7'', [])])
   \<and> snd (load_maps (in_maps_file (run_sample prior_sample maps_sample)))
     = Dict [(''rock'', ''Rockfield''), (''desert'', ''Sands'')]
   \<and> is_dict [(''M4'', ''Pershing''), (''A'', ''a'')]
   \<and> is_dict [(''25633'', [] :: tank), (''7'', [])]
   \<and> is_dict [(''rock'', ''Rockfield''), (''desert'', ''Sands'')]
   \<and> overlay [(''25633'', []), (''7'', [])] [(''25633'', record_sample)]
         [(''7'', []), (''25633'', record_sample)]
   \<and> overlay [(''M4'', ''Pershing''), (''A'', ''a'')] [(''M4'', ''Sherman'')]
         [(''A'', ''a''), (''M4'', ''Sherman'')]
   \<and> overlay [(''rock'', ''Rockfield''), (''desert'', ''Sands'')] [(''desert'', ''Desert Sands'')]
         [(''desert'', ''Desert Sands''), (''rock'', ''Rockfield'')]"
proof -
  have h4: "snd (load_tankopedia (in_tanks_file (run_sample prior_sample maps_sample)))
     = (Dict [(''M4'', ''Pershing''), (''A'', ''a'')], Dict [(''25633'', []), (''7'', [])])"
    by (simp add: run_sample_def prior_sample_def load_tankopedia_def entry_value_def)
  have h5: "snd (load_maps (in_maps_file (run_sample prior_sample maps_sample)))
     = Dict [(''rock'', ''Rockfield''), (''desert'', ''Sands'')]"
    by (simp add: run_sample_def maps_sample_def load_maps_def)
  have h6: "is_dict [(''M4'', ''Pershing''), (''A'', ''a'')]"
    and h7: "is_dict [(''25633'', [] :: tank), (''7'', [])]"
    and h8: "is_dict [(''rock'', ''Rockfield''), (''desert'', ''Sands'')]"
    by (simp_all add: is_dict_def)
  note w = main_merge_overlay [OF main_run_sample_prior main_extract_sample convert_sample
      h4 h5 h6 h7 h8]
  note w1 = w [THEN conjunct1]
  note w2 = w [THEN conjunct2, THEN conjunct1]
  note w3 = w [THEN conjunct2, THEN conjunct2, THEN conjunct1]
  show ?thesis
    using w1 w2 w3 main_run_sample_prior main_extract_sample convert_sample h4 h5 h6 h7 h8
    by simp
qed

section \<open>The identifiers of the extracted records\<close>

lemma make_tank_id:
  assumes "make_tank wg nation tank_xml = Inr t"
  shows "\<exists>n. dict_find t ''tank_id'' = Some (PyInt n)"
  using assms
  by (auto simp: make_tank_def Let_def dict_find_def split: sum.splits)

lemma make_tanks_ids:
  "make_tanks wg nation xs = Inr ts \<Longrightarrow> \<forall>t \<in> set ts. \<exists>n. dict_find t ''tank_id'' = Some (PyInt n)"
proof (induction xs arbitrary: ts)
  case Nil
  then show ?case by simp
next
  case (Cons x xs)
  then show ?case
    by (auto split: sum.splits dest: make_tank_id)
qed

lemma extract_tanks_ids:
  assumes "snd (extract_tanks wg fs base nation) = Inr (Some ts)"
  shows "\<forall>t \<in> set ts. \<exists>n. dict_find t ''tank_id'' = Some (PyInt n)"
proof -
  define p where "p = path_join (if isdir fs (path_join base [''assets''])
                        then path_join base [''assets''] else base)
             [BLITZAPP_VEHICLES_DIR, nation, BLITZAPP_VEHICLE_FILE]"
  have "extract_tanks wg fs base nation =
     (case vehicle_file fs p of
           None \<Rightarrow> ([Stdout (''ERROR: cannot open '' @ p)], Inr None)
         | Some None \<Rightarrow> ([Error_file p], Inl (SystemExit 2))
         | Some (Some root) \<Rightarrow>
             (case make_tanks wg nation (map snd root) of
                Inl e \<Rightarrow> ([Error_exc e], Inl (SystemExit 2))
              | Inr tanks \<Rightarrow> ([], Inr (Some tanks))))"
    unfolding extract_tanks_def Let_def p_def by (rule refl)
  then obtain root :: "(string, (string, pyval) dict) dict"
    where "make_tanks wg nation (map snd root) = Inr ts"
    using assms by (auto split: option.splits sum.splits)
  then show ?thesis
    by (rule make_tanks_ids)
qed

lemma extend_all_set:
  "extend_all acc rs = Inr xs \<Longrightarrow> set xs = set acc \<union> (\<Union>r \<in> set rs. case r of None \<Rightarrow> {} | Some ys \<Rightarrow> set ys)
     \<and> None \<notin> set rs"
  by (induction rs arbitrary: acc) (auto simp: extend_py_def split: option.splits sum.splits)

lemma gather_set:
  "gather rs = Inr xs \<Longrightarrow> \<forall>x \<in> set xs. Inr x \<in> set rs"
  by (induction rs arbitrary: xs) (auto split: sum.splits)

lemma main_tanklist_ids:
  assumes "snd (main_tanklist w fs base) = Inr tanklist"
  shows "\<forall>t \<in> set tanklist. \<exists>n. dict_find t ''tank_id'' = Some (PyInt n)"
proof
  fix t
  assume t: "t \<in> set tanklist"
  obtain results where g: "gather (map snd (map (extract_tanks (Some w) fs base) (NATION w))) = Inr results"
    and e: "extend_all [] results = Inr tanklist"
    using assms by (auto simp: main_tanklist_def Let_def split: sum.splits)
  from extend_all_set [OF e] t obtain ts where ts: "Some ts \<in> set results" "t \<in> set ts"
    by (auto split: option.splits)
  then have "Inr (Some ts) \<in> set (map snd (map (extract_tanks (Some w) fs base) (NATION w)))"
    using gather_set [OF g] by blast
  then obtain nation where "snd (extract_tanks (Some w) fs base nation) = Inr (Some ts)"
    by auto
  then show "\<exists>n. dict_find t ''tank_id'' = Some (PyInt n)"
    using extract_tanks_ids ts(2) by blast
qed

section \<open>The order of the keys\<close>

lemma is_dict_tankopedia_fold:
  "is_dict tp0 \<Longrightarrow>
     is_dict (fold (\<lambda>t tp. case snd (process_tank tank_strs t) of
                       Inl e \<Rightarrow> tp
                     | Inr (key, tank_tmp) \<Rightarrow> dict_set key tank_tmp tp) xs tp0)"
  by (induction xs arbitrary: tp0) (auto simp: is_dict_dict_set split: sum.splits)

lemma is_dict_user_strs_loop:
  "user_strs_loop tank_strs ks u0 = Inr u \<Longrightarrow> is_dict u0 \<Longrightarrow> is_dict u"
proof (induction ks arbitrary: u0)
  case Nil
  then show ?case by simp
next
  case (Cons k ks)
  from Cons.prems(1) obtain u1 where s: "user_str_step tank_strs k u0 = Inr u1"
    and l: "user_strs_loop tank_strs ks u1 = Inr u"
    by (auto split: sum.splits)
  have "is_dict u1"
    using s Cons.prems(2)
    by (auto simp: user_str_step_def is_dict_dict_set split: sum.splits if_splits)
  then show ?case
    using Cons.IH [OF l] by simp
qed

lemma tankopedia_keys_canonical:
  assumes "\<forall>t \<in> set tanklist. \<forall>tid. dict_find t ''tank_id'' = Some tid \<longrightarrow> (\<exists>n. tid = PyInt n)"
    and "k \<in> set (dict_keys (cs_tankopedia (convert_tanks tank_strs tanklist)))"
  shows "canonical_key k"
proof -
  obtain v where "dict_find (cs_tankopedia (convert_tanks tank_strs tanklist)) k = Some v"
    using assms(2)
    by (cases "dict_find (cs_tankopedia (convert_tanks tank_strs tanklist)) k")
      (simp_all add: dict_find_None_iff)
  then obtain t where t: "t \<in> set tanklist" "snd (process_tank tank_strs t) = Inr (k, v)"
    using tankopedia_fold_entry [of tank_strs tanklist "[]" k v]
    by (auto simp: convert_tanks_def cs_tankopedia_fold)
  from t(2) obtain tid where "dict_find t ''tank_id'' = Some tid" "k = str_py tid"
    by (rule process_tank_Inr)
  then obtain n where "k = str_int n"
    using assms(1) t(1) by fastforce
  then show ?thesis
    by (simp add: canonical_key_str_int)
qed

text \<open>
  Sorting by the integers that the keys stand for: the integers are in ascending order;
  no two are equal when the keys are pairwise distinct and canonical.
\<close>

lemma sort_key_int_sorted:
  fixes xs :: "'a list" and key :: "'a \<Rightarrow> string"
  defines "h \<equiv> \<lambda>x. projr (int_py (key x))"
  assumes "\<forall>x \<in> set xs. int_py (key x) = Inr (h x)"
  shows "map int_py (map key (sort_key h xs)) = map Inr (map h (sort_key h xs))"
    and "sorted (map h (sort_key h xs))"
    and "distinct (map key xs) \<Longrightarrow> \<forall>x \<in> set xs. canonical_key (key x)
           \<Longrightarrow> sorted_wrt (<) (map h (sort_key h xs))"
proof -
  show "map int_py (map key (sort_key h xs)) = map Inr (map h (sort_key h xs))"
    using assms(2) by simp
  show s: "sorted (map h (sort_key h xs))"
    by (rule sorted_sort_key)
  assume d: "distinct (map key xs)" and c: "\<forall>x \<in> set xs. canonical_key (key x)"
  have "inj_on h (set xs)"
  proof (rule inj_onI)
    fix a b
    assume a: "a \<in> set xs" and b: "b \<in> set xs" and e: "h a = h b"
    then have "int_py (key a) = int_py (key b)"
      using assms(2) by simp
    then have "key a = key b"
      using c a b canonical_key_inj by blast
    then show "a = b"
      using d a b by (simp add: distinct_map inj_on_def)
  qed
  moreover have "distinct xs"
    using d by (simp add: distinct_map)
  ultimately have "distinct (map h (sort_key h xs))"
    by (simp add: distinct_map)
  then show "sorted_wrt (<) (map h (sort_key h xs))"
    using s by (simp add: strict_sorted_iff)
qed

lemma sort_userStrs_keys:
  assumes "is_dict u"
  shows "dict_keys (sort_userStrs u) = sort (dict_keys u)"
proof -
  have "dict_keys (sort_userStrs u) = dict_keys ([] :: (string, string) dict) @ sort (dict_keys u)"
    unfolding sort_userStrs_def using assms
    by (intro keys_fold_store) (simp_all add: is_dict_def dict_keys_def dict_find_None_iff)
  then show ?thesis
    by (simp add: dict_keys_def)
qed

lemma sort_tankopedia_keys:
  assumes "sort_tankopedia tp = Inr s" and "is_dict tp"
  shows "dict_keys s = sort_key (\<lambda>k. projr (int_py k)) (dict_keys tp)"
    and "\<forall>k \<in> set (dict_keys tp). int_py k = Inr (projr (int_py k))"
proof -
  obtain ks where ks: "sorted_by int_py (dict_keys tp) = Inr ks"
    and s: "s = fold (\<lambda>tank_id sorted. case dict_find tp tank_id of
                                        None \<Rightarrow> sorted
                                      | Some t \<Rightarrow> dict_set tank_id t sorted) ks []"
    using assms(1) by (auto simp: sort_tankopedia_def split: sum.splits)
  note k = sorted_by_Inr [OF ks]
  show "\<forall>k \<in> set (dict_keys tp). int_py k = Inr (projr (int_py k))"
    using k(2) .
  have "dict_keys s = dict_keys ([] :: (string, tank) dict) @ ks"
    unfolding s using assms(2) k(1)
    by (intro keys_fold_store) (simp_all add: is_dict_def dict_keys_def dict_find_None_iff)
  then show "dict_keys s = sort_key (\<lambda>k. projr (int_py k)) (dict_keys tp)"
    using k(1) by (simp add: dict_keys_def)
qed

text \<open>
  Claim C9 says that in the serialized outputs the keys of the tankopedia's \<open>data\<close> are
  strictly increasing when parsed as integers, and the keys of \<open>userStr\<close> and of the maps
  catalog strictly increasing in the lexicographic order. For \<open>data\<close> this fails when the
  tankopedia file of an earlier run has two keys that stand for the same integer: both
  are kept by the merge, and no order of the keys is strictly increasing. The run below
  starts from a file with the keys \<open>01\<close> and \<open>1\<close>.
\<close>

theorem data_keys_counterexample:
  "tanks_file (main (run_sample
      (Content \<lparr> json_userStr = Object [], json_data = Object [(''01'', []), (''1'', [])] \<rparr>)
      Absent))
     = Written \<lparr> out_status = ''ok'', out_count = 3,
         out_data = [(''01'', []), (''1'', []), (''25633'', record_sample)],
         out_userStr = [(''M4'', ''Sherman'')] \<rparr>
   \<and> map int_py (dict_keys [(''01'', [] :: tank), (''1'', []), (''25633'', record_sample)])
     = [Inr 1, Inr 1, Inr 25633]
   \<and> \<not> sorted_wrt (<) [1, 1, 25633 :: int]"
proof -
  have a: "int_py ''01'' = Inr 1" and b: "int_py ''1'' = Inr 1"
    by (simp_all add: int_py_def strip_py_def is_space_def is_digit_def)
  show ?thesis
    by (simp add: main_run_sample load_tankopedia_def entry_value_def merge_tankopedia_def
        update_py_def sort_dict_def sorted_by_def int_py_sample a b dict_keys_def load_maps_def
        dumps_sort_keys_def)
qed

text \<open>
  Claim C9, amended. In a run that writes both files, the keys of \<open>userStr\<close> and of the
  maps catalog are strictly increasing in the lexicographic order, and the keys of
  \<open>data\<close>, parsed as integers, are in ascending order; they are strictly increasing when
  every key of the earlier file's \<open>data\<close> is canonical, that is the text \<open>str(n)\<close> of the
  integer it stands for, as every key made by the program is. The two dictionaries that
  \<open>convert_tank_names\<close> returns are ordered in the same way: the user strings strictly by
  key, the tankopedia by the integer of the key, strictly when the \<open>tank_id\<close> of every
  record is an integer.
\<close>

theorem outputs_sorted:
  assumes "main inp = \<lparr> tanks_file = Written out, maps_file = Written maps, run_end = None \<rparr>"
    and "snd (load_tankopedia (in_tanks_file inp)) = (Dict userStrs, Dict tanks)"
    and "snd (load_maps (in_maps_file inp)) = Dict prior_maps"
    and "is_dict userStrs" and "is_dict tanks" and "is_dict prior_maps"
  shows "(\<exists>ids. map int_py (dict_keys (out_data out)) = map Inr ids \<and> sorted ids
            \<and> (list_all canonical_key (dict_keys tanks) \<longrightarrow> sorted_wrt (<) ids))
       \<and> sorted_wrt (<) (dict_keys (out_userStr out))
       \<and> sorted_wrt (<) (dict_keys maps)
       \<and> (\<forall>new_tanks new_userStrs.
             snd (snd (convert_tank_names tanklist tank_strs)) = Inr (new_tanks, new_userStrs) \<longrightarrow>
               sorted_wrt (<) (dict_keys new_userStrs)
             \<and> (\<exists>ids. map int_py (dict_keys new_tanks) = map Inr ids \<and> sorted ids
                   \<and> ((\<forall>t \<in> set tanklist. \<forall>tid. dict_find t ''tank_id'' = Some tid
                           \<longrightarrow> (\<exists>n. tid = PyInt n)) \<longrightarrow> sorted_wrt (<) ids)))"
proof (intro conjI allI impI)
  from assms(1) obtain tanklist' tank_strs' map_strs' reports userStrs' tanks' new_tanks'
      new_userStrs' prior_maps'
    where e: "main_extract inp = Inr (tanklist', tank_strs', map_strs')"
      and l: "load_tankopedia (in_tanks_file inp) = (reports, Dict userStrs', Dict tanks')"
      and c: "snd (snd (convert_tank_names tanklist' tank_strs')) = Inr (new_tanks', new_userStrs')"
      and d: "sort_dict (dict_update tanks' new_tanks') True = Inr (out_data out)"
      and u: "out_userStr out = sort_key fst (dict_update userStrs' new_userStrs')"
      and p: "snd (load_maps (in_maps_file inp)) = Dict prior_maps'"
      and m: "maps = sort_key fst (dict_update prior_maps' map_strs')"
    by (rule main_complete)
  have eq: "userStrs' = userStrs" "tanks' = tanks" "prior_maps' = prior_maps"
    using l p assms(2,3) by simp_all
  note nd = convert_tank_names_dicts [OF c]
  have md: "is_dict map_strs'"
    using read_user_strs_Inr(2) [OF main_extract_Inr(2) [OF e]] .
  show "sorted_wrt (<) (dict_keys (out_userStr out))"
    unfolding u eq using assms(4) by (intro sorted_keys_sort_key is_dict_dict_update)
  show "sorted_wrt (<) (dict_keys maps)"
    unfolding m eq using assms(6) by (intro sorted_keys_sort_key is_dict_dict_update)
  define merged where "merged = dict_update tanks new_tanks'"
  let ?h = "\<lambda>item :: string \<times> tank. projr (int_py (fst item))"
  have dm: "is_dict merged"
    unfolding merged_def using assms(5) by (rule is_dict_dict_update)
  have o: "out_data out = sort_key ?h merged"
    and i: "\<forall>item \<in> set merged. int_py (fst item) = Inr (?h item)"
    using sort_dict_number [OF d] by (simp_all add: eq merged_def)
  note s = sort_key_int_sorted [of merged fst, OF i]
  have ids: "\<forall>t \<in> set tanklist'. \<forall>tid. dict_find t ''tank_id'' = Some tid \<longrightarrow> (\<exists>n. tid = PyInt n)"
    using main_tanklist_ids [OF main_extract_Inr(1) [OF e]] by fastforce
  have st: "sort_tankopedia (cs_tankopedia (convert_tanks tank_strs' tanklist')) = Inr new_tanks'"
    using c by (auto simp: convert_tank_names_def Let_def split: sum.splits)
  have nk: "canonical_key k" if "k \<in> set (dict_keys new_tanks')" for k
  proof -
    have "dict_find new_tanks' k \<noteq> None"
      using that by (simp add: dict_find_None_iff)
    then have "dict_find (cs_tankopedia (convert_tanks tank_strs' tanklist')) k \<noteq> None"
      by (simp add: sort_tankopedia_find [OF st])
    then have "k \<in> set (dict_keys (cs_tankopedia (convert_tanks tank_strs' tanklist')))"
      by (simp add: dict_find_None_iff)
    then show ?thesis
      using ids by (rule tankopedia_keys_canonical [rotated])
  qed
  have "sorted_wrt (<) (map ?h (sort_key ?h merged))" if "list_all canonical_key (dict_keys tanks)"
  proof (rule s(3))
    show "distinct (map fst merged)"
      using dm by (simp add: is_dict_def)
    have "canonical_key k" if "k \<in> set (dict_keys merged)" for k
      using that \<open>list_all canonical_key (dict_keys tanks)\<close> nk
      by (auto simp: merged_def keys_dict_update list_all_iff)
    then show "\<forall>x \<in> set merged. canonical_key (fst x)"
      by (simp add: dict_keys_def)
  qed
  moreover have "map int_py (dict_keys (out_data out)) = map Inr (map ?h (sort_key ?h merged))"
    using s(1) by (simp add: o dict_keys_def)
  moreover note s(2)
  ultimately show "\<exists>ids. map int_py (dict_keys (out_data out)) = map Inr ids \<and> sorted ids
            \<and> (list_all canonical_key (dict_keys tanks) \<longrightarrow> sorted_wrt (<) ids)"
    by blast
next
  fix new_tanks new_userStrs
  assume c: "snd (snd (convert_tank_names tanklist tank_strs)) = Inr (new_tanks, new_userStrs)"
  define tp where "tp = cs_tankopedia (convert_tanks tank_strs tanklist)"
  obtain u where ul: "user_strs_loop tank_strs (dict_keys tank_strs) [] = Inr u"
    and nu: "new_userStrs = sort_userStrs u"
    and st: "sort_tankopedia tp = Inr new_tanks"
    using c by (auto simp: convert_tank_names_def Let_def tp_def split: sum.splits)
  have du: "is_dict u"
    using ul by (rule is_dict_user_strs_loop) simp
  then have "distinct (dict_keys u)"
    by (simp add: is_dict_def dict_keys_def)
  then show "sorted_wrt (<) (dict_keys new_userStrs)"
    by (simp add: nu sort_userStrs_keys [OF du] strict_sorted_iff)
  have dt: "is_dict tp"
    unfolding tp_def convert_tanks_def cs_tankopedia_fold
    by (rule is_dict_tankopedia_fold) simp
  let ?h = "\<lambda>k :: string. projr (int_py k)"
  note k = sort_tankopedia_keys [OF st dt]
  note s = sort_key_int_sorted [of "dict_keys tp" "\<lambda>k. k", OF k(2)]
  have "sorted_wrt (<) (map ?h (sort_key ?h (dict_keys tp)))"
    if "\<forall>t \<in> set tanklist. \<forall>tid. dict_find t ''tank_id'' = Some tid \<longrightarrow> (\<exists>n. tid = PyInt n)"
  proof (rule s(3))
    show "distinct (map (\<lambda>k. k) (dict_keys tp))"
      using dt by (simp add: is_dict_def dict_keys_def)
    show "\<forall>x \<in> set (dict_keys tp). canonical_key x"
      using tankopedia_keys_canonical [OF that] by (simp add: tp_def)
  qed
  moreover have "map int_py (dict_keys new_tanks) = map Inr (map ?h (sort_key ?h (dict_keys tp)))"
    using s(1) by (simp add: k(1))
  moreover note s(2)
  ultimately show "\<exists>ids. map int_py (dict_keys new_tanks) = map Inr ids \<and> sorted ids
                   \<and> ((\<forall>t \<in> set tanklist. \<forall>tid. dict_find t ''tank_id'' = Some tid
                           \<longrightarrow> (\<exists>n. tid = PyInt n)) \<longrightarrow> sorted_wrt (<) ids)"
    by blast
qed

theorem outputs_sorted_witness:
  "main (run_sample prior_sample maps_sample)
     = \<lparr> tanks_file = Written \<lparr> out_status = ''ok'', out_count = 2,
              out_data = [(''7'', []), (''25633'', record_sample)],
              out_userStr = [(''A'', ''a''), (''M4'', ''Sherman'')] \<rparr>,
         maps_file = Written [(''desert'', ''Desert Sands''), (''rock'', ''Rockfield'')],
         run_end = None \<rparr>
   \<and> snd (load_tankopedia (in_tanks_file (run_sample prior_sample maps_sample)))
     = (Dict [(''M4'', ''Pershing''), (''A'', ''a'')], Dict [(''25633'', []), (''7'', [])])
   \<and> snd (load_maps (in_maps_file (run_sample prior_sample maps_sample)))
     = Dict [(''rock'', ''Rockfield''), (''desert'', ''Sands'')]
   \<and> is_dict [(''M4'', ''Pershing''), (''A'', ''a'')]
   \<and> is_dict [(''25633'', [] :: tank), (''7'', [])]
   \<and> is_dict [(''rock'', ''Rockfield''), (''desert'', ''Sands'')]
   \<and> list_all canonical_key (dict_keys [(''25633'', [] :: tank), (''7'', [])])
   \<and> (\<exists>ids. map int_py (dict_keys [(''7'', [] :: tank), (''25633'', record_sample)]) = map Inr ids
          \<and> sorted_wrt (<) ids)
   \<and> sorted_wrt (<) (dict_keys [(''A'', ''a''), (''M4'', ''Sherman'')])
   \<and> sorted_wrt (<) (dict_keys [(''desert'', ''Desert Sands''), (''rock'', ''Rockfield'')])
   \<and> snd (snd (convert_tank_names [tank_sample] [(''#usa_vehicles:M4'', ''Sherman'')]))
     = Inr ([(''25633'', record_sample)], [(''M4'', ''Sherman'')])
   \<and> (\<exists>ids. map int_py (dict_keys [(''25633'', record_sample)]) = map Inr ids \<and> sorted_wrt (<) ids)"
proof -
  have h2: "snd (load_tankopedia (in_tanks_file (run_sample prior_sample maps_sample)))
     = (Dict [(''M4'', ''Pershing''), (''A'', ''a'')], Dict [(''25633'', []), (''7'', [])])"
    by (simp add: run_sample_def prior_sample_def load_tankopedia_def entry_value_def)
  have h3: "snd (load_maps (in_maps_file (run_sample prior_sample maps_sample)))
     = Dict [(''rock'', ''Rockfield''), (''desert'', ''Sands'')]"
    by (simp add: run_sample_def maps_sample_def load_maps_def)
  have h4: "is_dict [(''M4'', ''Pershing''), (''A'', ''a'')]"
    and h5: "is_dict [(''25633'', [] :: tank), (''7'', [])]"
    and h6: "is_dict [(''rock'', ''Rockfield''), (''desert'', ''Sands'')]"
    by (simp_all add: is_dict_def)
  have "str_int 7 = ''7''"
    by (simp add: str_int_def str_nat.simps digit_chars)
  then have c: "list_all canonical_key (dict_keys [(''25633'', [] :: tank), (''7'', [])])"
    by (simp add: canonical_key_def dict_keys_def int_py_sample int_py_7 str_int_sample)
  have t: "\<forall>t \<in> set [tank_sample]. \<forall>tid. dict_find t ''tank_id'' = Some tid \<longrightarrow> (\<exists>n. tid = PyInt n)"
    by (simp add: tank_sample_def dict_find_def)
  note w = outputs_sorted [OF main_run_sample_prior h2 h3 h4 h5 h6,
      of "[tank_sample]" "[(''#usa_vehicles:M4'', ''Sherman'')]"]
  from w c have a: "\<exists>ids. map int_py (dict_keys [(''7'', [] :: tank), (''25633'', record_sample)])
          = map Inr ids \<and> sorted_wrt (<) ids"
    by auto
  from w have b: "sorted_wrt (<) (dict_keys [(''A'', ''a''), (''M4'', ''Sherman'')])"
    and m: "sorted_wrt (<) (dict_keys [(''desert'', ''Desert Sands''), (''rock'', ''Rockfield'')])"
    by simp_all
  from w convert_sample t
  have d: "\<exists>ids. map int_py (dict_keys [(''25633'', record_sample)]) = map Inr ids \<and> sorted_wrt (<) ids"
    by blast
  show ?thesis
    using main_run_sample_prior h2 h3 h4 h5 h6 c a b m convert_sample d by blast
qed

end
